theory Spec2Isabelle
  imports Main
begin

unbundle bit_operations_syntax

section \<open>Errors and the engine's return codes\<close>

text \<open>
  The exceptions that \<^verbatim>\<open>nng.py\<close> raises or catches. \<open>ConnectionRefused\<close> and
  \<open>NNGException\<close> come from the engine's return codes through \<^verbatim>\<open>check_err\<close>; the others
  are raised by the Python code itself (\<open>KeyError\<close> by a dictionary lookup,
  \<open>AttributeError\<close> by reading an attribute that was never set, \<open>AssertionError\<close> by an
  \<^verbatim>\<open>assert\<close>). \<open>BaseException\<close> stands for the errors that do not derive from Python's
  \<^verbatim>\<open>Exception\<close> (\<^verbatim>\<open>KeyboardInterrupt\<close>, \<^verbatim>\<open>SystemExit\<close>), which \<^verbatim>\<open>except Exception\<close>
  does not catch.
\<close>

datatype error =
    ConnectionRefused
  | NNGException int
  | MessageStateError
  | ValueError
  | TypeError
  | KeyError
  | AttributeError
  | AssertionError
  | BaseException

text \<open>Constants of the engine's header (\<^verbatim>\<open>nng.h\<close>), reached in the source through \<^verbatim>\<open>lib\<close>.\<close>

definition NNG_ECONNREFUSED :: int where
  "NNG_ECONNREFUSED = 6"

definition NNG_FLAG_NONBLOCK :: int where
  "NNG_FLAG_NONBLOCK = 2"

definition NNG_PIPE_EV_ADD_PRE :: int where
  "NNG_PIPE_EV_ADD_PRE = 0"

definition NNG_PIPE_EV_ADD_POST :: int where
  "NNG_PIPE_EV_ADD_POST = 1"

definition NNG_PIPE_EV_REM_POST :: int where
  "NNG_PIPE_EV_REM_POST = 2"

text \<open>
  Modelled from the spec: \<^verbatim>\<open>check_err\<close> is imported from \<^verbatim>\<open>exceptions.py\<close>, which is not
  among the sources. By the error taxonomy of the specification it returns on the code
  zero and raises otherwise: \<open>ConnectionRefused\<close> for the engine's connection-refused
  code, and the generic engine error, carrying the code, for every other one.
\<close>

definition check_err :: "int \<Rightarrow> error + unit" where
  "check_err err =
     (if err = 0 then Inr ()
      else if err = NNG_ECONNREFUSED then Inl ConnectionRefused
      else Inl (NNGException err))"

section \<open>Pipes and Python values\<close>

text \<open>
  A \<^verbatim>\<open>Pipe\<close> object: the copied engine handle, the owning socket (by its \<^verbatim>\<open>id()\<close>) and
  the \<^verbatim>\<open>_closed\<close> flag. The engine's \<^verbatim>\<open>nng_pipe\<close> is a structure holding the pipe's id,
  so a handle is the integer it holds.
\<close>

record pipe =
  pipe_handle :: int
  pipe_socket :: int
  closed :: bool

definition nng_pipe_id :: "int \<Rightarrow> int" where
  "nng_pipe_id lib_pipe = lib_pipe"

text \<open>\<^verbatim>\<open>Pipe.__init__\<close>\<close>

definition Pipe_init :: "int \<Rightarrow> int \<Rightarrow> pipe" where
  "Pipe_init lib_pipe sock = \<lparr>pipe_handle = lib_pipe, pipe_socket = sock, closed = False\<rparr>"

text \<open>
  \<^verbatim>\<open>Pipe.close\<close>: the flag is set only when the engine's \<^verbatim>\<open>nng_pipe_close\<close> reports no
  error (\<open>rc\<close> is the code it returns).
\<close>

definition Pipe_close :: "int \<Rightarrow> pipe \<Rightarrow> (error + unit) \<times> pipe" where
  "Pipe_close rc p =
     (case check_err rc of
        Inl e \<Rightarrow> (Inl e, p)
      | Inr _ \<Rightarrow> (Inr (), p\<lparr>closed := True\<rparr>))"

text \<open>The values a caller may assign to an attribute; \<^verbatim>\<open>isinstance(v, Pipe)\<close> is \<open>is_Pipe\<close>.\<close>

datatype py_value =
    PyNone
  | PyBool bool
  | PyInt int
  | PyStr string
  | PyBytes "nat list"
  | PyPipe pipe

fun is_Pipe :: "py_value \<Rightarrow> bool" where
  "is_Pipe (PyPipe p) = True"
| "is_Pipe v = False"

section \<open>Messages\<close>

text \<open>
  What a run does to the engine and to the locks is recorded as a list of actions, in
  order. A call that hands the buffer to the engine carries the code the engine
  returned for it.
\<close>

datatype action =
    Lock_acquire nat
  | Lock_release nat
  | Nng_msg_free nat
  | Nng_sendmsg nat nat int int
  | Nng_msg_set_pipe nat int
  | Nng_aio_alloc
  | Nng_aio_set_msg nat nat
  | Nng_ctx_send nat nat int
  | Nng_aio_wait nat
  | Nng_aio_result nat
  | Nng_aio_free nat
  | Nng_open int
  | Nng_setopt int
  | Nng_pipe_notify nat int int
  | Nng_listen nat string int int
  | Nng_dial nat string int int
  | Nng_close nat int

text \<open>
  A \<^verbatim>\<open>Message\<close> object: the engine's buffer \<^verbatim>\<open>_nng_msg\<close>, the flag \<^verbatim>\<open>_mem_freed\<close>, the lock
  \<^verbatim>\<open>_mem_freed_lock\<close> (\<open>True\<close> while some caller holds it) and the attribute \<^verbatim>\<open>_pipe\<close>.
\<close>

record message =
  nng_msg :: nat
  mem_freed :: bool
  mem_freed_lock :: bool
  pipe_attr :: "pipe option"

type_synonym mstate = "message \<times> action list"

text \<open>
  \<^verbatim>\<open>with msg._mem_freed_lock:\<close> acquires the lock, runs the body and releases the lock on
  every way out of the body, a raise included. The lock is not reentrant: acquiring it
  while it is held never returns, which is the value \<open>None\<close>.
\<close>

definition with_mem_freed_lock ::
  "(mstate \<Rightarrow> (error + 'a) \<times> mstate) \<Rightarrow> mstate \<Rightarrow> ((error + 'a) \<times> mstate) option" where
  "with_mem_freed_lock body st =
     (case st of (m, tr) \<Rightarrow>
        if mem_freed_lock m then None
        else (case body (m\<lparr>mem_freed_lock := True\<rparr>, tr @ [Lock_acquire (nng_msg m)]) of
                (r, m', tr') \<Rightarrow>
                  Some (r, m'\<lparr>mem_freed_lock := False\<rparr>, tr' @ [Lock_release (nng_msg m')])))"

text \<open>\<^verbatim>\<open>Message._ensure_can_send\<close>: asserts that the lock is held, then checks the flag.\<close>

definition Message_ensure_can_send :: "message \<Rightarrow> error + unit" where
  "Message_ensure_can_send m =
     (if \<not> mem_freed_lock m then Inl AssertionError
      else if mem_freed m then Inl MessageStateError
      else Inr ())"

text \<open>\<^verbatim>\<open>Message.__del__\<close>\<close>

definition Message_del :: "mstate \<Rightarrow> ((error + unit) \<times> mstate) option" where
  "Message_del =
     with_mem_freed_lock (\<lambda>(m, tr).
       if mem_freed m then (Inr (), m, tr)
       else (Inr (), m\<lparr>mem_freed := True\<rparr>, tr @ [Nng_msg_free (nng_msg m)]))"

text \<open>
  \<^verbatim>\<open>Socket.send_msg\<close> on the socket with engine handle \<open>sock\<close>; \<open>rc\<close> is the code that
  \<^verbatim>\<open>nng_sendmsg\<close> returns.
\<close>

definition Socket_send_msg :: "nat \<Rightarrow> int \<Rightarrow> bool \<Rightarrow> mstate \<Rightarrow> ((error + unit) \<times> mstate) option" where
  "Socket_send_msg sock rc block =
     (let flags = (if \<not> block then 0 OR NNG_FLAG_NONBLOCK else 0) in
      with_mem_freed_lock (\<lambda>(m, tr).
        case Message_ensure_can_send m of
          Inl e \<Rightarrow> (Inl e, m, tr)
        | Inr _ \<Rightarrow>
            (let tr1 = tr @ [Nng_sendmsg sock (nng_msg m) flags rc] in
             case check_err rc of
               Inl e \<Rightarrow> (Inl e, m, tr1)
             | Inr _ \<Rightarrow> (Inr (), m\<lparr>mem_freed := True\<rparr>, tr1))))"

text \<open>
  The engine's answers to the calls of one \<^verbatim>\<open>Context.send_msg\<close>: the code of each call and
  the handle that \<^verbatim>\<open>nng_aio_alloc\<close> stores.
\<close>

record aio_engine =
  aio_alloc_rc :: int
  aio_handle :: nat
  aio_set_msg_rc :: int
  ctx_send_rc :: int
  aio_wait_rc :: int
  aio_result_rc :: int

text \<open>
  The \<^verbatim>\<open>try\<close> block of \<^verbatim>\<open>Context.send_msg\<close>. \<open>ctx\<close> is the attribute \<^verbatim>\<open>_context\<close>: the engine
  handle, or \<open>None\<close> once the context was closed, and then reading \<^verbatim>\<open>self.context\<close> for
  the call of \<^verbatim>\<open>nng_ctx_send\<close> raises \<open>TypeError\<close>.
\<close>

definition Context_send_msg_try ::
  "nat option \<Rightarrow> aio_engine \<Rightarrow> mstate \<Rightarrow> (error + unit) \<times> mstate" where
  "Context_send_msg_try ctx eng st =
     (case st of (m, tr) \<Rightarrow>
       (let aio = aio_handle eng;
            tr1 = tr @ [Nng_aio_set_msg aio (nng_msg m)] in
        case check_err (aio_set_msg_rc eng) of
          Inl e \<Rightarrow> (Inl e, m, tr1)
        | Inr _ \<Rightarrow>
            (case ctx of
               None \<Rightarrow> (Inl TypeError, m, tr1)
             | Some c \<Rightarrow>
                 (let tr2 = tr1 @ [Nng_ctx_send c aio (ctx_send_rc eng)] in
                  case check_err (ctx_send_rc eng) of
                    Inl e \<Rightarrow> (Inl e, m, tr2)
                  | Inr _ \<Rightarrow>
                      (let m1 = m\<lparr>mem_freed := True\<rparr>;
                           tr3 = tr2 @ [Nng_aio_wait aio] in
                       case check_err (aio_wait_rc eng) of
                         Inl e \<Rightarrow> (Inl e, m1, tr3)
                       | Inr _ \<Rightarrow>
                           (let tr4 = tr3 @ [Nng_aio_result aio] in
                            case check_err (aio_result_rc eng) of
                              Inl e \<Rightarrow> (Inl e, m1, tr4)
                            | Inr _ \<Rightarrow> (Inr (), m1, tr4)))))))"

text \<open>\<^verbatim>\<open>Context.send_msg\<close> on the context whose \<^verbatim>\<open>_context\<close> is \<open>ctx\<close>.\<close>

definition Context_send_msg ::
  "nat option \<Rightarrow> aio_engine \<Rightarrow> mstate \<Rightarrow> ((error + unit) \<times> mstate) option" where
  "Context_send_msg ctx eng =
     with_mem_freed_lock (\<lambda>(m, tr).
       case Message_ensure_can_send m of
         Inl e \<Rightarrow> (Inl e, m, tr)
       | Inr _ \<Rightarrow>
           (let tr1 = tr @ [Nng_aio_alloc] in
            case check_err (aio_alloc_rc eng) of
              Inl e \<Rightarrow> (Inl e, m, tr1)
            | Inr _ \<Rightarrow>
                (case Context_send_msg_try ctx eng (m, tr1) of
                   (r, m', tr') \<Rightarrow> (r, m', tr' @ [Nng_aio_free (aio_handle eng)]))))"

text \<open>
  \<^verbatim>\<open>Socket.asend_msg\<close> and \<^verbatim>\<open>Context.asend_msg\<close>. The helper they hand the message to
  (\<^verbatim>\<open>_aio.AIOHelper\<close>) is not among the sources, so what it does to the message and to the
  engine is the parameter \<open>helper\<close>.
\<close>

definition Socket_asend_msg ::
  "(mstate \<Rightarrow> (error + unit) \<times> mstate) \<Rightarrow> mstate \<Rightarrow> ((error + unit) \<times> mstate) option" where
  "Socket_asend_msg helper =
     with_mem_freed_lock (\<lambda>(m, tr).
       case Message_ensure_can_send m of
         Inl e \<Rightarrow> (Inl e, m, tr)
       | Inr _ \<Rightarrow> helper (m, tr))"

definition Context_asend_msg ::
  "(mstate \<Rightarrow> (error + unit) \<times> mstate) \<Rightarrow> mstate \<Rightarrow> ((error + unit) \<times> mstate) option" where
  "Context_asend_msg helper =
     with_mem_freed_lock (\<lambda>(m, tr).
       case Message_ensure_can_send m of
         Inl e \<Rightarrow> (Inl e, m, tr)
       | Inr _ \<Rightarrow> helper (m, tr))"

text \<open>
  The setter of \<^verbatim>\<open>Message.pipe\<close>; \<open>rc\<close> is what the engine's \<^verbatim>\<open>nng_msg_set_pipe\<close> returns to
  \<^verbatim>\<open>check_err\<close>.
\<close>

definition Message_set_pipe :: "int \<Rightarrow> py_value \<Rightarrow> mstate \<Rightarrow> (error + unit) \<times> mstate" where
  "Message_set_pipe rc v st =
     (case st of (m, tr) \<Rightarrow>
        if \<not> is_Pipe v then (Inl ValueError, m, tr)
        else (case v of
                PyPipe p \<Rightarrow>
                  (let tr1 = tr @ [Nng_msg_set_pipe (nng_msg m) (pipe_handle p)] in
                   case check_err rc of
                     Inl e \<Rightarrow> (Inl e, m, tr1)
                   | Inr _ \<Rightarrow> (Inr (), m\<lparr>pipe_attr := Some p\<rparr>, tr1))
              | _ \<Rightarrow> (Inl ValueError, m, tr)))"

text \<open>
  The operations that dispose of a message, as one thread issues them. Each runs wholly
  inside \<^verbatim>\<open>with msg._mem_freed_lock\<close>, so the lock serialises them: what several threads do
  to one message is some sequence of these operations.
\<close>

datatype msg_op =
    Op_socket_send nat int bool
  | Op_context_send "nat option" aio_engine
  | Op_del

fun run_op :: "msg_op \<Rightarrow> mstate \<Rightarrow> mstate option" where
  "run_op (Op_socket_send sock rc block) st = map_option snd (Socket_send_msg sock rc block st)"
| "run_op (Op_context_send ctx eng) st = map_option snd (Context_send_msg ctx eng st)"
| "run_op Op_del st = map_option snd (Message_del st)"

fun run_ops :: "msg_op list \<Rightarrow> mstate \<Rightarrow> mstate option" where
  "run_ops [] st = Some st"
| "run_ops (x # xs) st = (case run_op x st of None \<Rightarrow> None | Some st' \<Rightarrow> run_ops xs st')"

text \<open>
  The actions that take the buffer away from the Python object: the engine frees it, or
  a send that the engine accepted owns it from then on.
\<close>

fun releases :: "action \<Rightarrow> bool" where
  "releases (Nng_msg_free m) = True"
| "releases (Nng_sendmsg s m f rc) = (rc = 0)"
| "releases (Nng_ctx_send c a rc) = (rc = 0)"
| "releases a = False"

fun is_free :: "action \<Rightarrow> bool" where
  "is_free (Nng_msg_free m) = True"
| "is_free a = False"

text \<open>
  The same three operations statement by statement, for threads that run them at the
  same time. A thread is at one of these places of its operation: before taking the
  lock; at the check of the flag; at the engine calls \<^verbatim>\<open>nng_aio_alloc\<close> and
  \<^verbatim>\<open>nng_aio_set_msg\<close> of a context send; at the engine call that takes the buffer
  (\<^verbatim>\<open>nng_sendmsg\<close>, \<^verbatim>\<open>nng_ctx_send\<close> or \<^verbatim>\<open>nng_msg_free\<close>); at the assignment
  \<^verbatim>\<open>_mem_freed = True\<close>; at \<^verbatim>\<open>nng_aio_wait\<close> and \<^verbatim>\<open>nng_aio_result\<close>; at the \<^verbatim>\<open>finally\<close> that
  frees the aio; at the release of the lock; done. The last three carry what the
  operation returns or raises.
\<close>

datatype pc =
    P_acquire
  | P_check
  | P_alloc
  | P_set_msg
  | P_send
  | P_set_flag
  | P_wait
  | P_result
  | P_aio_free "error + unit"
  | P_release "error + unit"
  | P_done "error + unit"

text \<open>Where \<^verbatim>\<open>_ensure_can_send\<close> leads: to the release of the lock when it raises.\<close>

definition after_check :: "message \<Rightarrow> pc \<Rightarrow> pc" where
  "after_check m next =
     (case Message_ensure_can_send m of Inl e \<Rightarrow> P_release (Inl e) | Inr _ \<Rightarrow> next)"

text \<open>
  One statement of a thread. \<open>None\<close> says that the thread cannot move: it waits for the
  lock, or it is done.
\<close>

fun thread_step :: "msg_op \<Rightarrow> pc \<Rightarrow> mstate \<Rightarrow> (pc \<times> mstate) option" where
  "thread_step x P_acquire (m, tr) =
     (if mem_freed_lock m then None
      else Some (P_check, m\<lparr>mem_freed_lock := True\<rparr>, tr @ [Lock_acquire (nng_msg m)]))"
| "thread_step Op_del P_check (m, tr) =
     Some (if mem_freed m then P_release (Inr ()) else P_send, m, tr)"
| "thread_step (Op_socket_send sock rc block) P_check (m, tr) =
     Some (after_check m P_send, m, tr)"
| "thread_step (Op_context_send ctx eng) P_check (m, tr) =
     Some (after_check m P_alloc, m, tr)"
| "thread_step (Op_context_send ctx eng) P_alloc (m, tr) =
     Some (case check_err (aio_alloc_rc eng) of Inl e \<Rightarrow> P_release (Inl e) | Inr _ \<Rightarrow> P_set_msg,
           m, tr @ [Nng_aio_alloc])"
| "thread_step (Op_context_send ctx eng) P_set_msg (m, tr) =
     Some (case check_err (aio_set_msg_rc eng) of Inl e \<Rightarrow> P_aio_free (Inl e) | Inr _ \<Rightarrow> P_send,
           m, tr @ [Nng_aio_set_msg (aio_handle eng) (nng_msg m)])"
| "thread_step (Op_context_send ctx eng) P_send (m, tr) =
     (case ctx of
        None \<Rightarrow> Some (P_aio_free (Inl TypeError), m, tr)
      | Some c \<Rightarrow>
          Some (case check_err (ctx_send_rc eng) of Inl e \<Rightarrow> P_aio_free (Inl e) | Inr _ \<Rightarrow> P_set_flag,
                m, tr @ [Nng_ctx_send c (aio_handle eng) (ctx_send_rc eng)]))"
| "thread_step (Op_socket_send sock rc block) P_send (m, tr) =
     Some (case check_err rc of Inl e \<Rightarrow> P_release (Inl e) | Inr _ \<Rightarrow> P_set_flag,
           m, tr @ [Nng_sendmsg sock (nng_msg m) (if \<not> block then 0 OR NNG_FLAG_NONBLOCK else 0) rc])"
| "thread_step Op_del P_send (m, tr) =
     Some (P_set_flag, m, tr @ [Nng_msg_free (nng_msg m)])"
| "thread_step (Op_context_send ctx eng) P_set_flag (m, tr) =
     Some (P_wait, m\<lparr>mem_freed := True\<rparr>, tr)"
| "thread_step x P_set_flag (m, tr) =
     Some (P_release (Inr ()), m\<lparr>mem_freed := True\<rparr>, tr)"
| "thread_step (Op_context_send ctx eng) P_wait (m, tr) =
     Some (case check_err (aio_wait_rc eng) of Inl e \<Rightarrow> P_aio_free (Inl e) | Inr _ \<Rightarrow> P_result,
           m, tr @ [Nng_aio_wait (aio_handle eng)])"
| "thread_step (Op_context_send ctx eng) P_result (m, tr) =
     Some (P_aio_free (check_err (aio_result_rc eng)), m, tr @ [Nng_aio_result (aio_handle eng)])"
| "thread_step (Op_context_send ctx eng) (P_aio_free r) (m, tr) =
     Some (P_release r, m, tr @ [Nng_aio_free (aio_handle eng)])"
| "thread_step x (P_release r) (m, tr) =
     Some (P_done r, m\<lparr>mem_freed_lock := False\<rparr>, tr @ [Lock_release (nng_msg m)])"
| "thread_step x p (m, tr) = None"

text \<open>
  The threads are numbered; \<open>ops i\<close> is the operation of thread \<open>i\<close>. A configuration
  holds the place of every thread and the shared message with the actions so far. A
  schedule names the thread that moves next, step by step; a thread that cannot move
  when it is named stays where it is.
\<close>

type_synonym config = "(nat \<Rightarrow> pc) \<times> mstate"

definition sched_step :: "(nat \<Rightarrow> msg_op) \<Rightarrow> nat \<Rightarrow> config \<Rightarrow> config" where
  "sched_step ops i cfg =
     (case cfg of (pcs, st) \<Rightarrow>
        (case thread_step (ops i) (pcs i) st of
           None \<Rightarrow> cfg
         | Some (p, st') \<Rightarrow> (pcs(i := p), st')))"

fun run_schedule :: "(nat \<Rightarrow> msg_op) \<Rightarrow> nat list \<Rightarrow> config \<Rightarrow> config" where
  "run_schedule ops [] cfg = cfg"
| "run_schedule ops (i # sched) cfg = run_schedule ops sched (sched_step ops i cfg)"

text \<open>A thread running alone for \<open>n\<close> statements.\<close>

fun run_thread :: "nat \<Rightarrow> msg_op \<Rightarrow> pc \<times> mstate \<Rightarrow> pc \<times> mstate" where
  "run_thread 0 x cfg = cfg"
| "run_thread (Suc n) x (p, st) =
     (case thread_step x p st of None \<Rightarrow> (p, st) | Some cfg \<Rightarrow> run_thread n x cfg)"

text \<open>
  A thread is inside \<^verbatim>\<open>with msg._mem_freed_lock\<close> from taking the lock to releasing it; it
  is before the hand-over when it has passed the check and not yet made the call that
  takes the buffer. \<open>disposed_del\<close> holds of a \<^verbatim>\<open>__del__\<close> that is past its body.
\<close>

fun inside :: "pc \<Rightarrow> bool" where
  "inside P_acquire = False"
| "inside (P_done r) = False"
| "inside p = True"

fun before_handoff :: "pc \<Rightarrow> bool" where
  "before_handoff P_alloc = True"
| "before_handoff P_set_msg = True"
| "before_handoff P_send = True"
| "before_handoff p = False"

fun disposed_del :: "msg_op \<Rightarrow> pc \<Rightarrow> bool" where
  "disposed_del Op_del (P_release r) = True"
| "disposed_del Op_del (P_done r) = True"
| "disposed_del x p = False"

text \<open>
  What holds of every configuration that threads starting on a fresh message reach:
  the lock is held exactly when some thread is inside, at most one thread is inside, a
  thread between its check and the assignment of the flag still finds the flag unset,
  the buffer was taken once exactly when the flag is set or a thread is about to set
  it, and never more than once.
\<close>

definition cinv :: "(nat \<Rightarrow> msg_op) \<Rightarrow> config \<Rightarrow> bool" where
  "cinv ops cfg =
     (case cfg of (pcs, m, tr) \<Rightarrow>
        mem_freed_lock m = (\<exists>i. inside (pcs i)) \<and>
        (\<forall>i j. inside (pcs i) \<and> inside (pcs j) \<longrightarrow> i = j) \<and>
        (\<forall>i. before_handoff (pcs i) \<longrightarrow> \<not> mem_freed m ) \<and>
        (\<forall>i. pcs i = P_set_flag \<longrightarrow> \<not> mem_freed m) \<and>
        length (filter releases tr) = (if mem_freed m \<or> (\<exists>i. pcs i = P_set_flag) then 1 else 0) \<and>
        length (filter is_free tr) \<le> length (filter releases tr) \<and>
        (\<forall>i. disposed_del (ops i) (pcs i) \<longrightarrow> mem_freed m))"

section \<open>Sockets\<close>

text \<open>
  A pipe-event callback registered by the user. Applied to the \<^verbatim>\<open>Pipe\<close> it is called with,
  it says whether the callback closes that pipe (a \<^verbatim>\<open>Pipe.close\<close> that the engine accepts)
  and how the call ends: it returns, it raises an error derived from \<^verbatim>\<open>Exception\<close>, or it
  raises one that is not. A callback is taken to act on the pipe it is given only: it
  does not change the socket's tables or its lists of callbacks.
\<close>

datatype hook_outcome = Returns | Raises_Exception | Raises_BaseException

type_synonym hook = "pipe \<Rightarrow> bool \<times> hook_outcome"

datatype log_entry =
    Log_exception string
  | Log_warning string
  | Log_debug string

text \<open>One call of a callback: the event, the callback and the pipe it was given.\<close>

datatype hook_call = Hook_call int hook pipe

record dialer =
  dialer_handle :: int

record listener =
  listener_handle :: int

text \<open>
  A \<^verbatim>\<open>Socket\<close> object. \<open>socket_attr\<close> is the attribute \<^verbatim>\<open>_socket\<close>, \<open>None\<close> while the object
  does not have it yet; the three tables are \<^verbatim>\<open>_dialers\<close>, \<^verbatim>\<open>_listeners\<close> and \<^verbatim>\<open>_pipes\<close>;
  \<open>pipe_notify_lock\<close> is \<open>True\<close> while the lock is held.
\<close>

record socket =
  socket_attr :: "nat option"
  dialers :: "int \<rightharpoonup> dialer"
  listeners :: "int \<rightharpoonup> listener"
  pipes :: "int \<rightharpoonup> pipe"
  on_pre_pipe_add :: "hook list"
  on_post_pipe_add :: "hook list"
  on_post_pipe_remove :: "hook list"
  pipe_notify_lock :: bool

text \<open>
  The process-wide state the dispatcher works on: \<^verbatim>\<open>_live_sockets\<close>, whose entry for a
  socket disappears when the socket is collected, the records written to the logger and
  the callbacks called so far.
\<close>

record world =
  live_sockets :: "nat \<rightharpoonup> socket"
  log :: "log_entry list"
  hook_calls :: "hook_call list"

text \<open>\<^verbatim>\<open>Socket._add_pipe\<close>; \<open>sock_id\<close> is \<^verbatim>\<open>id(self)\<close>.\<close>

definition Socket_add_pipe :: "int \<Rightarrow> nat \<Rightarrow> socket \<Rightarrow> pipe \<times> socket" where
  "Socket_add_pipe lib_pipe sock_id s =
     (let pipe_id = nng_pipe_id lib_pipe;
          pipe = Pipe_init lib_pipe (int sock_id)
      in (pipe, s\<lparr>pipes := (pipes s)(pipe_id \<mapsto> pipe)\<rparr>))"

text \<open>\<^verbatim>\<open>Socket._remove_pipe\<close>: \<^verbatim>\<open>del\<close> raises when the key is missing.\<close>

definition Socket_remove_pipe :: "int \<Rightarrow> socket \<Rightarrow> error + socket" where
  "Socket_remove_pipe lib_pipe s =
     (let pipe_id = nng_pipe_id lib_pipe
      in if pipes s pipe_id = None then Inl KeyError
         else Inr (s\<lparr>pipes := (pipes s)(pipe_id := None)\<rparr>))"

text \<open>
  The loop \<^verbatim>\<open>for cb in ...: try: cb(pipe) except Exception: logger.exception(msg)\<close>. It
  returns \<open>None\<close> when it ran to its end and the error when a callback raised one that
  \<^verbatim>\<open>except Exception\<close> lets through, which ends the loop.
\<close>

fun run_hooks ::
  "int \<Rightarrow> string \<Rightarrow> hook list \<Rightarrow> pipe \<times> log_entry list \<times> hook_call list \<Rightarrow>
   error option \<times> pipe \<times> log_entry list \<times> hook_call list" where
  "run_hooks ev msg [] st = (None, st)"
| "run_hooks ev msg (cb # cbs) (p, lg, cs) =
     (let p' = (if fst (cb p) then p\<lparr>closed := True\<rparr> else p);
          cs' = cs @ [Hook_call ev cb p]
      in case snd (cb p) of
           Returns \<Rightarrow> run_hooks ev msg cbs (p', lg, cs')
         | Raises_Exception \<Rightarrow> run_hooks ev msg cbs (p', lg @ [Log_exception msg], cs')
         | Raises_BaseException \<Rightarrow> (Some BaseException, p', lg, cs'))"

text \<open>
  The callbacks work on the \<^verbatim>\<open>Pipe\<close> object that the table holds, so what they did to it
  is seen through the table: \<open>store_pipe\<close> writes the object's new state under its key.
\<close>

definition store_pipe :: "int \<Rightarrow> pipe \<Rightarrow> socket \<Rightarrow> socket" where
  "store_pipe pipe_id p s = s\<lparr>pipes := (pipes s)(pipe_id \<mapsto> p)\<rparr>"

definition raise_of :: "error option \<Rightarrow> error + unit" where
  "raise_of r = (case r of None \<Rightarrow> Inr () | Some e \<Rightarrow> Inl e)"

text \<open>The body of \<^verbatim>\<open>_nng_pipe_cb\<close> inside \<^verbatim>\<open>with sock._pipe_notify_lock\<close>.\<close>

definition pipe_cb_body ::
  "int \<Rightarrow> int \<Rightarrow> nat \<Rightarrow> socket \<times> log_entry list \<times> hook_call list \<Rightarrow>
   (error + unit) \<times> socket \<times> log_entry list \<times> hook_call list" where
  "pipe_cb_body lib_pipe event sock_id st =
     (case st of (sock, lg, cs) \<Rightarrow>
       (let pipe_id = nng_pipe_id lib_pipe in
        if event = NNG_PIPE_EV_ADD_PRE then
          (case Socket_add_pipe lib_pipe sock_id sock of
             (pipe, sock1) \<Rightarrow>
               (case run_hooks event ''Exception raised in pre pipe connect callback''
                       (on_pre_pipe_add sock1) (pipe, lg, cs) of
                  (Some e, p', lg', cs') \<Rightarrow> (Inl e, store_pipe pipe_id p' sock1, lg', cs')
                | (None, p', lg', cs') \<Rightarrow>
                    if closed p' then
                      (case Socket_remove_pipe lib_pipe (store_pipe pipe_id p' sock1) of
                         Inl e \<Rightarrow> (Inl e, store_pipe pipe_id p' sock1, lg', cs')
                       | Inr sock2 \<Rightarrow> (Inr (), sock2, lg', cs'))
                    else (Inr (), store_pipe pipe_id p' sock1, lg', cs')))
        else if event = NNG_PIPE_EV_ADD_POST then
          (case pipes sock pipe_id of
             None \<Rightarrow> (Inl KeyError, sock, lg, cs)
           | Some pipe \<Rightarrow>
               (case run_hooks event ''Exception raised in post pipe connect callback''
                       (on_post_pipe_add sock) (pipe, lg, cs) of
                  (r, p', lg', cs') \<Rightarrow> (raise_of r, store_pipe pipe_id p' sock, lg', cs')))
        else if event = NNG_PIPE_EV_REM_POST then
          (case pipes sock pipe_id of
             None \<Rightarrow> (Inr (), sock, lg @ [Log_debug ''Could not find pipe for socket''], cs)
           | Some pipe \<Rightarrow>
               (case run_hooks event ''Exception raised in post pipe remove callback''
                       (on_post_pipe_remove sock) (pipe, lg, cs) of
                  (r, p', lg', cs') \<Rightarrow>
                    (case Socket_remove_pipe lib_pipe (store_pipe pipe_id p' sock) of
                       Inl e \<Rightarrow> (Inl e, store_pipe pipe_id p' sock, lg', cs')
                     | Inr sock1 \<Rightarrow> (raise_of r, sock1, lg', cs'))))
        else (Inr (), sock, lg, cs)))"

text \<open>
  \<^verbatim>\<open>_nng_pipe_cb\<close>, the dispatcher the engine calls with the pipe, the event and the
  token \<open>arg\<close>. The lookup in \<^verbatim>\<open>_live_sockets\<close> raises \<open>KeyError\<close> for a missing key; the lock
  is taken after it and released on every way out. A call that finds the lock held
  never returns (\<open>None\<close>).
\<close>

definition nng_pipe_cb :: "int \<Rightarrow> int \<Rightarrow> nat \<Rightarrow> world \<Rightarrow> ((error + unit) \<times> world) option" where
  "nng_pipe_cb lib_pipe event arg w =
     (let sock_id = arg in
      case live_sockets w sock_id of
        None \<Rightarrow> Some (Inl KeyError, w)
      | Some sock \<Rightarrow>
          if pipe_notify_lock sock then None
          else (case pipe_cb_body lib_pipe event sock_id
                       (sock\<lparr>pipe_notify_lock := True\<rparr>, log w, hook_calls w) of
                  (r, sock', lg', cs') \<Rightarrow>
                    Some (r, w\<lparr>live_sockets :=
                                 (live_sockets w)(sock_id \<mapsto> sock'\<lparr>pipe_notify_lock := False\<rparr>),
                               log := lg', hook_calls := cs'\<rparr>)))"

text \<open>
  A run of the dispatcher over the events the engine delivers, in order. An error raised
  by one call does not reach the engine (the source says so at the head of the
  dispatcher), so the next event is dispatched all the same; the results are kept.
\<close>

fun deliver ::
  "(int \<times> int \<times> nat) list \<Rightarrow> world \<Rightarrow> ((error + unit) list \<times> world) option" where
  "deliver [] w = Some ([], w)"
| "deliver ((lib_pipe, event, arg) # evs) w =
     (case nng_pipe_cb lib_pipe event arg w of
        None \<Rightarrow> None
      | Some (r, w') \<Rightarrow>
          (case deliver evs w' of
             None \<Rightarrow> None
           | Some (rs, w'') \<Rightarrow> Some (r # rs, w'')))"

text \<open>
  \<^verbatim>\<open>Socket.close\<close>: the socket after the call and the engine calls made. \<open>rc\<close> is the code
  that \<^verbatim>\<open>nng_close\<close> returns; the method does not look at it.
\<close>

definition Socket_close :: "int \<Rightarrow> socket \<Rightarrow> socket \<times> action list" where
  "Socket_close rc s =
     (case socket_attr s of
        None \<Rightarrow> (s, [])
      | Some h \<Rightarrow> (s\<lparr>listeners := Map.empty, dialers := Map.empty\<rparr>, [Nng_close h rc]))"

text \<open>
  The engine's answer to a \<^verbatim>\<open>nng_dial\<close> or \<^verbatim>\<open>nng_listen\<close>: the return code and the id of
  the dialer or listener it made. It may depend on the address, on the flags and on
  what was done before (the number of actions so far).
\<close>

type_synonym endpoint_engine = "nat \<Rightarrow> string \<Rightarrow> int \<Rightarrow> int \<times> int"

type_synonym sstate = "socket \<times> log_entry list \<times> action list"

text \<open>\<^verbatim>\<open>Socket._dial\<close>\<close>

definition Socket__dial :: "endpoint_engine \<Rightarrow> string \<Rightarrow> int \<Rightarrow> sstate \<Rightarrow> (error + unit) \<times> sstate" where
  "Socket__dial eng address flags st =
     (case st of (s, lg, tr) \<Rightarrow>
        (case socket_attr s of
           None \<Rightarrow> (Inl AttributeError, s, lg, tr)
         | Some h \<Rightarrow>
             (case eng (length tr) address flags of
                (ret, d_id) \<Rightarrow>
                  (let tr1 = tr @ [Nng_dial h address flags ret] in
                   case check_err ret of
                     Inl e \<Rightarrow> (Inl e, s, lg, tr1)
                   | Inr _ \<Rightarrow>
                       (Inr (), s\<lparr>dialers := (dialers s)(d_id \<mapsto> \<lparr>dialer_handle = d_id\<rparr>)\<rparr>,
                        lg, tr1)))))"

text \<open>\<^verbatim>\<open>Socket.listen\<close>\<close>

definition Socket_listen :: "endpoint_engine \<Rightarrow> string \<Rightarrow> int \<Rightarrow> sstate \<Rightarrow> (error + unit) \<times> sstate" where
  "Socket_listen eng address flags st =
     (case st of (s, lg, tr) \<Rightarrow>
        (case socket_attr s of
           None \<Rightarrow> (Inl AttributeError, s, lg, tr)
         | Some h \<Rightarrow>
             (case eng (length tr) address flags of
                (ret, l_id) \<Rightarrow>
                  (let tr1 = tr @ [Nng_listen h address flags ret] in
                   case check_err ret of
                     Inl e \<Rightarrow> (Inl e, s, lg, tr1)
                   | Inr _ \<Rightarrow>
                       (Inr (), s\<lparr>listeners := (listeners s)(l_id \<mapsto> \<lparr>listener_handle = l_id\<rparr>)\<rparr>,
                        lg, tr1)))))"

text \<open>
  \<^verbatim>\<open>Socket.dial\<close>. \<open>block\<close> is \<open>Some True\<close>, \<open>Some False\<close> or \<open>None\<close>; with \<open>None\<close> the method
  calls itself, and a \<open>ConnectionRefused\<close> from that call is logged and followed by a
  second call.
\<close>

function Socket_dial :: "endpoint_engine \<Rightarrow> string \<Rightarrow> bool option \<Rightarrow> sstate \<Rightarrow> (error + unit) \<times> sstate" where
  "Socket_dial eng address block st =
     (if block = Some True then Socket__dial eng address 0 st
      else if block = None then
        (case Socket_dial eng address (Some False) st of
           (Inl e, s1, lg1, tr1) \<Rightarrow>
             if e = ConnectionRefused then
               Socket_dial eng address (Some False)
                 (s1, lg1 @ [Log_exception ''Synchronous dial failed; attempting asynchronous now''], tr1)
             else (Inl e, s1, lg1, tr1)
         | (Inr u, s1, lg1, tr1) \<Rightarrow> (Inr u, s1, lg1, tr1))
      else Socket__dial eng address NNG_FLAG_NONBLOCK st)"
  by pat_completeness auto
termination
  by (relation "measure (\<lambda>(eng, address, block, st). if block = None then 1 else 0)") auto

text \<open>
  The keyword arguments of \<^verbatim>\<open>Socket.__init__\<close> that steer it (\<open>has_opener\<close> says whether
  the class or the call supplies \<^verbatim>\<open>_opener\<close>), and the engine's part in one construction:
  the code and handle of the open call, the codes of the option assignments that the
  call supplies (in the order of the source), the code of \<^verbatim>\<open>nng_pipe_notify\<close> for each
  event, the answers to \<^verbatim>\<open>nng_listen\<close> and \<^verbatim>\<open>nng_dial\<close>, and the pipe events that the engine
  delivers for this socket while the constructor's listen and dial are under way.
\<close>

record init_args =
  arg_dial :: "string option"
  arg_listen :: "string option"
  arg_block_on_dial :: "bool option"
  has_opener :: bool

record init_engine =
  opener_rc :: int
  opener_handle :: nat
  setopt_rcs :: "int list"
  notify_rc :: "int \<Rightarrow> int"
  listen_engine :: endpoint_engine
  dial_engine :: endpoint_engine
  listen_events :: "(int \<times> int) list"
  dial_events :: "(int \<times> int) list"

text \<open>The attributes that \<^verbatim>\<open>Socket.__init__\<close> sets first.\<close>

definition new_socket :: socket where
  "new_socket =
     \<lparr>socket_attr = Some 0, dialers = Map.empty, listeners = Map.empty, pipes = Map.empty,
      on_pre_pipe_add = [], on_post_pipe_add = [], on_post_pipe_remove = [],
      pipe_notify_lock = False\<rparr>"

text \<open>The option assignments: the first code that is not zero raises.\<close>

fun init_setopts :: "int list \<Rightarrow> action list \<Rightarrow> (error + unit) \<times> action list" where
  "init_setopts [] tr = (Inr (), tr)"
| "init_setopts (rc # rcs) tr =
     (case check_err rc of
        Inl e \<Rightarrow> (Inl e, tr @ [Nng_setopt rc])
      | Inr _ \<Rightarrow> init_setopts rcs (tr @ [Nng_setopt rc]))"

text \<open>The loop over the three events that arms the pipe callback.\<close>

fun init_notify :: "(int \<Rightarrow> int) \<Rightarrow> nat \<Rightarrow> int list \<Rightarrow> action list \<Rightarrow> (error + unit) \<times> action list" where
  "init_notify rc h [] tr = (Inr (), tr)"
| "init_notify rc h (event # events) tr =
     (case check_err (rc event) of
        Inl e \<Rightarrow> (Inl e, tr @ [Nng_pipe_notify h event (rc event)])
      | Inr _ \<Rightarrow> init_notify rc h events (tr @ [Nng_pipe_notify h event (rc event)]))"

text \<open>
  The state of a construction: the object \<^verbatim>\<open>self\<close>, the process-wide state, the actions
  and what each call of the dispatcher during the construction ended with.
\<close>

type_synonym istate = "socket \<times> world \<times> action list \<times> (error + unit) list"

text \<open>
  One of \<^verbatim>\<open>self.listen(listen)\<close> and \<^verbatim>\<open>self.dial(dial, block=block_on_dial)\<close>, given as
  \<open>call\<close>, together with the events the engine delivers with the token \<^verbatim>\<open>id(self)\<close> while
  the call is under way.
\<close>

definition init_endpoint ::
  "(sstate \<Rightarrow> (error + unit) \<times> sstate) \<Rightarrow> (int \<times> int) list \<Rightarrow> nat \<Rightarrow> istate \<Rightarrow>
   ((error + unit) \<times> istate) option" where
  "init_endpoint call events self_id st =
     (case st of (self, w, tr, rs) \<Rightarrow>
        (case call (self, log w, tr) of
           (r, self1, lg1, tr1) \<Rightarrow>
             (case deliver (map (\<lambda>(lib_pipe, event). (lib_pipe, event, self_id)) events)
                     (w\<lparr>log := lg1\<rparr>) of
                None \<Rightarrow> None
              | Some (rs1, w1) \<Rightarrow> Some (r, self1, w1, tr1, rs @ rs1))))"

text \<open>
  \<^verbatim>\<open>Socket.__init__\<close> for the object whose \<^verbatim>\<open>id()\<close> is \<open>self_id\<close>. The last statement enters
  the object in \<^verbatim>\<open>_live_sockets\<close>.
\<close>

definition Socket_init ::
  "init_args \<Rightarrow> init_engine \<Rightarrow> nat \<Rightarrow> world \<times> action list \<Rightarrow> ((error + unit) \<times> istate) option" where
  "Socket_init args eng self_id st =
     (case st of (w, tr) \<Rightarrow>
       (let self0 = new_socket in
        if \<not> has_opener args then Some (Inl TypeError, self0, w, tr, [])
        else
         (let tr1 = tr @ [Nng_open (opener_rc eng)];
              self1 = (if opener_rc eng = 0 then self0\<lparr>socket_attr := Some (opener_handle eng)\<rparr>
                       else self0)
          in case check_err (opener_rc eng) of
               Inl e \<Rightarrow> Some (Inl e, self1, w, tr1, [])
             | Inr _ \<Rightarrow>
                (case init_setopts (setopt_rcs eng) tr1 of
                   (Inl e, tr2) \<Rightarrow> Some (Inl e, self1, w, tr2, [])
                 | (Inr _, tr2) \<Rightarrow>
                    (case init_notify (notify_rc eng) (opener_handle eng)
                            [NNG_PIPE_EV_ADD_PRE, NNG_PIPE_EV_ADD_POST, NNG_PIPE_EV_REM_POST] tr2 of
                       (Inl e, tr3) \<Rightarrow> Some (Inl e, self1, w, tr3, [])
                     | (Inr _, tr3) \<Rightarrow>
                        (case (case arg_listen args of
                                 None \<Rightarrow> Some (Inr (), self1, w, tr3, [])
                               | Some a \<Rightarrow>
                                   init_endpoint (Socket_listen (listen_engine eng) a 0)
                                     (listen_events eng) self_id (self1, w, tr3, [])) of
                           None \<Rightarrow> None
                         | Some (Inl e, st4) \<Rightarrow> Some (Inl e, st4)
                         | Some (Inr _, st4) \<Rightarrow>
                            (case (case arg_dial args of
                                     None \<Rightarrow> Some (Inr (), st4)
                                   | Some a \<Rightarrow>
                                       init_endpoint
                                         (Socket_dial (dial_engine eng) a (arg_block_on_dial args))
                                         (dial_events eng) self_id st4) of
                               None \<Rightarrow> None
                             | Some (Inl e, st5) \<Rightarrow> Some (Inl e, st5)
                             | Some (Inr _, (self5, w5, tr5, rs5)) \<Rightarrow>
                                 Some (Inr (), self5,
                                       w5\<lparr>live_sockets := (live_sockets w5)(self_id \<mapsto> self5)\<rparr>,
                                       tr5, rs5))))))))"

section \<open>Observations and example objects\<close>







text \<open>
  The state of a message between two operations: the lock is free, and the buffer has
  been taken from the object exactly when the flag says so, never more than once. The
  engine frees are among the actions that take the buffer.
\<close>

definition minv :: "mstate \<Rightarrow> bool" where
  "minv st =
     (\<not> mem_freed_lock (fst st) \<and>
      length (filter releases (snd st)) = (if mem_freed (fst st) then 1 else 0))"

definition frees_ok :: "mstate \<Rightarrow> bool" where
  "frees_ok st = (length (filter is_free (snd st)) \<le> length (filter releases (snd st)))"

definition msg0 :: message where
  "msg0 = \<lparr>nng_msg = 1, mem_freed = False, mem_freed_lock = False, pipe_attr = None\<rparr>"

text \<open>Two threads on one message: thread 0 disposes of it, every other thread sends it.\<close>

definition threads0 :: "nat \<Rightarrow> msg_op" where
  "threads0 i = (if i = 0 then Op_del else Op_socket_send 3 0 True)"

definition world0 :: world where
  "world0 = \<lparr>live_sockets = Map.empty, log = [], hook_calls = []\<rparr>"

text \<open>Three callbacks: one closes the pipe, one raises, one only returns.\<close>

definition closing_hook :: hook where
  "closing_hook = (\<lambda>p. (True, Returns))"

definition raising_hook :: hook where
  "raising_hook = (\<lambda>p. (False, Raises_Exception))"

definition quiet_hook :: hook where
  "quiet_hook = (\<lambda>p. (False, Returns))"

text \<open>
  A socket with callbacks for each event, alone in the registry under the token 5; the
  same socket with the pipe 7 in its table.
\<close>

definition sock1 :: socket where
  "sock1 =
     \<lparr>socket_attr = Some 3, dialers = Map.empty, listeners = Map.empty, pipes = Map.empty,
      on_pre_pipe_add = [quiet_hook, raising_hook, closing_hook],
      on_post_pipe_add = [raising_hook, quiet_hook],
      on_post_pipe_remove = [raising_hook, quiet_hook],
      pipe_notify_lock = False\<rparr>"


definition sock2 :: socket where
  "sock2 =
     sock1\<lparr>dialers := [1 \<mapsto> \<lparr>dialer_handle = 1\<rparr>],
           listeners := [2 \<mapsto> \<lparr>listener_handle = 2\<rparr>],
           pipes := [7 \<mapsto> Pipe_init 7 5]\<rparr>"

text \<open>
  An engine at an address where nobody listens: a blocking dial is refused, a
  nonblocking one starts the dialer 1 in the background.
\<close>

definition refusing_engine :: endpoint_engine where
  "refusing_engine n address flags = (if flags = 0 then (NNG_ECONNREFUSED, 0) else (0, 1))"

text \<open>
  A construction \<^verbatim>\<open>Pair0(dial=address, block_on_dial=True)\<close> during which the engine
  connects at once and delivers the pre-add and the post-add event of the pipe 7.
\<close>

definition args1 :: init_args where
  "args1 =
     \<lparr>arg_dial = Some ''tcp://127.0.0.1:5555'', arg_listen = None,
      arg_block_on_dial = Some True, has_opener = True\<rparr>"

definition engine1 :: init_engine where
  "engine1 =
     \<lparr>opener_rc = 0, opener_handle = 3, setopt_rcs = [], notify_rc = (\<lambda>event. 0),
      listen_engine = (\<lambda>n address flags. (0, 2)),
      dial_engine = (\<lambda>n address flags. (0, 1)),
      listen_events = [],
      dial_events = [(7, NNG_PIPE_EV_ADD_PRE), (7, NNG_PIPE_EV_ADD_POST)]\<rparr>"

section \<open>Message ownership\<close>

lemma unlock_id: "\<not> mem_freed_lock m \<Longrightarrow> m\<lparr>mem_freed_lock := False\<rparr> = m"
  by simp

lemma Message_del_freed:
  "\<not> mem_freed_lock m \<Longrightarrow> mem_freed m \<Longrightarrow>
   Message_del (m, tr) = Some (Inr (), m, tr @ [Lock_acquire (nng_msg m), Lock_release (nng_msg m)])"
  by (simp add: Message_del_def with_mem_freed_lock_def)

lemma Message_del_live:
  "\<not> mem_freed_lock m \<Longrightarrow> \<not> mem_freed m \<Longrightarrow>
   Message_del (m, tr) =
     Some (Inr (), m\<lparr>mem_freed := True\<rparr>,
           tr @ [Lock_acquire (nng_msg m), Nng_msg_free (nng_msg m), Lock_release (nng_msg m)])"
  by (simp add: Message_del_def with_mem_freed_lock_def)

lemma Socket_send_msg_freed:
  "\<not> mem_freed_lock m \<Longrightarrow> mem_freed m \<Longrightarrow>
   Socket_send_msg sock rc block (m, tr) =
     Some (Inl MessageStateError, m, tr @ [Lock_acquire (nng_msg m), Lock_release (nng_msg m)])"
  by (simp add: Socket_send_msg_def with_mem_freed_lock_def Message_ensure_can_send_def Let_def)

lemma Socket_send_msg_live:
  "\<not> mem_freed_lock m \<Longrightarrow> \<not> mem_freed m \<Longrightarrow>
   Socket_send_msg sock rc block (m, tr) =
     Some (if rc = 0 then Inr () else Inl (if rc = NNG_ECONNREFUSED then ConnectionRefused else NNGException rc),
           m\<lparr>mem_freed := (rc = 0)\<rparr>,
           tr @ [Lock_acquire (nng_msg m),
                 Nng_sendmsg sock (nng_msg m) (if block then 0 else NNG_FLAG_NONBLOCK) rc,
                 Lock_release (nng_msg m)])"
  by (simp add: Socket_send_msg_def with_mem_freed_lock_def Message_ensure_can_send_def Let_def check_err_def)

lemma Context_send_msg_freed:
  "\<not> mem_freed_lock m \<Longrightarrow> mem_freed m \<Longrightarrow>
   Context_send_msg ctx eng (m, tr) =
     Some (Inl MessageStateError, m, tr @ [Lock_acquire (nng_msg m), Lock_release (nng_msg m)])"
  by (simp add: Context_send_msg_def with_mem_freed_lock_def Message_ensure_can_send_def Let_def)

lemma try_releases:
  "Context_send_msg_try ctx eng (m, tr) = (r, m', tr') \<Longrightarrow> \<not> mem_freed m \<Longrightarrow>
   mem_freed_lock m' = mem_freed_lock m \<and>
   length (filter releases tr') = length (filter releases tr) + (if mem_freed m' then 1 else 0)
   \<and> length (filter is_free tr') = length (filter is_free tr)"
  by (auto simp: Context_send_msg_try_def Let_def check_err_def split: if_splits option.splits)

lemma Context_send_msg_live:
  "\<not> mem_freed_lock m \<Longrightarrow> \<not> mem_freed m \<Longrightarrow>
   \<exists>r m' tr'. Context_send_msg ctx eng (m, tr) = Some (r, m', tr') \<and> \<not> mem_freed_lock m' \<and>
     length (filter releases tr') = length (filter releases tr) + (if mem_freed m' then 1 else 0) \<and>
     length (filter is_free tr') = length (filter is_free tr)"
proof -
  assume ul: "\<not> mem_freed_lock m" and nf: "\<not> mem_freed m"
  let ?m = "m\<lparr>mem_freed_lock := True\<rparr>"
  let ?tr = "tr @ [Lock_acquire (nng_msg m), Nng_aio_alloc]"
  show ?thesis
  proof (cases "aio_alloc_rc eng = 0")
    case False
    with ul nf show ?thesis
      by (simp add: Context_send_msg_def with_mem_freed_lock_def Message_ensure_can_send_def
          Let_def check_err_def)
  next
    case True
    obtain r m' tr' where t: "Context_send_msg_try ctx eng (?m, ?tr) = (r, m', tr')"
      by (metis prod_cases3)
    from nf have "\<not> mem_freed ?m" by simp
    from try_releases [OF t this]
    have l: "mem_freed_lock m' = True"
      and c: "length (filter releases tr') = length (filter releases tr) + (if mem_freed m' then 1 else 0)"
      and f: "length (filter is_free tr') = length (filter is_free tr)"
      by simp_all
    from ul nf True t have "Context_send_msg ctx eng (m, tr) =
        Some (r, m'\<lparr>mem_freed_lock := False\<rparr>,
              tr' @ [Nng_aio_free (aio_handle eng), Lock_release (nng_msg m')])"
      by (simp add: Context_send_msg_def with_mem_freed_lock_def Message_ensure_can_send_def
          Let_def check_err_def)
    with c f show ?thesis by simp
  qed
qed

lemma run_op_minv:
  assumes "minv st" "frees_ok st"
  shows "\<exists>st'. run_op x st = Some st' \<and> minv st' \<and> frees_ok st' \<and>
           (mem_freed (fst st) \<longrightarrow> mem_freed (fst st')) \<and>
           (x = Op_del \<longrightarrow> mem_freed (fst st'))"
proof -
  obtain m tr where st: "st = (m, tr)" by (cases st)
  from assms st have ul: "\<not> mem_freed_lock m" by (simp add: minv_def)
  show ?thesis
  proof (cases "mem_freed m")
    case True
    with ul assms st show ?thesis
      by (cases x)
         (simp_all add: Socket_send_msg_freed Context_send_msg_freed Message_del_freed
            minv_def frees_ok_def)
  next
    case False
    show ?thesis
    proof (cases x)
      case (Op_socket_send sock rc block)
      with ul False assms st show ?thesis
        by (simp add: Socket_send_msg_live minv_def frees_ok_def)
    next
      case (Op_context_send ctx eng)
      from Context_send_msg_live [OF ul False, of ctx eng tr]
      obtain r m' tr' where c: "Context_send_msg ctx eng (m, tr) = Some (r, m', tr')"
        "\<not> mem_freed_lock m'"
        "length (filter releases tr') = length (filter releases tr) + (if mem_freed m' then 1 else 0)"
        "length (filter is_free tr') = length (filter is_free tr)"
        by blast
      with Op_context_send False assms st show ?thesis
        by (simp add: minv_def frees_ok_def)
    next
      case Op_del
      with ul False assms st show ?thesis
        by (simp add: Message_del_live minv_def frees_ok_def)
    qed
  qed
qed

lemma run_ops_minv:
  "minv st \<Longrightarrow> frees_ok st \<Longrightarrow>
   \<exists>st'. run_ops xs st = Some st' \<and> minv st' \<and> frees_ok st' \<and>
     (mem_freed (fst st) \<longrightarrow> mem_freed (fst st')) \<and>
     (Op_del \<in> set xs \<longrightarrow> mem_freed (fst st'))"
proof (induction xs arbitrary: st)
  case Nil
  then show ?case by simp
next
  case (Cons x xs)
  from run_op_minv [OF Cons.prems, of x]
  obtain st1 where s1: "run_op x st = Some st1" "minv st1" "frees_ok st1"
    "mem_freed (fst st) \<longrightarrow> mem_freed (fst st1)" "x = Op_del \<longrightarrow> mem_freed (fst st1)"
    by blast
  from Cons.IH [OF s1(2) s1(3)]
  obtain st2 where s2: "run_ops xs st1 = Some st2" "minv st2" "frees_ok st2"
    "mem_freed (fst st1) \<longrightarrow> mem_freed (fst st2)" "Op_del \<in> set xs \<longrightarrow> mem_freed (fst st2)"
    by blast
  from s1 s2 show ?case by auto
qed

lemma run_thread_socket:
  "\<not> mem_freed_lock m \<Longrightarrow>
   Socket_send_msg sock rc block (m, tr) =
     (case run_thread 5 (Op_socket_send sock rc block) (P_acquire, m, tr) of
        (P_done r, st) \<Rightarrow> Some (r, st) | _ \<Rightarrow> None)"
  by (simp add: eval_nat_numeral Socket_send_msg_def with_mem_freed_lock_def after_check_def
      Message_ensure_can_send_def Let_def check_err_def)

lemma run_thread_del:
  "\<not> mem_freed_lock m \<Longrightarrow>
   Message_del (m, tr) =
     (case run_thread 5 Op_del (P_acquire, m, tr) of
        (P_done r, st) \<Rightarrow> Some (r, st) | _ \<Rightarrow> None)"
  by (simp add: eval_nat_numeral Message_del_def with_mem_freed_lock_def)

lemma run_thread_context:
  "\<not> mem_freed_lock m \<Longrightarrow>
   Context_send_msg ctx eng (m, tr) =
     (case run_thread 10 (Op_context_send ctx eng) (P_acquire, m, tr) of
        (P_done r, st) \<Rightarrow> Some (r, st) | _ \<Rightarrow> None)"
  by (simp add: eval_nat_numeral Context_send_msg_def Context_send_msg_try_def with_mem_freed_lock_def
      after_check_def Message_ensure_can_send_def Let_def check_err_def split: option.splits)

lemma not_inside:
  "\<not> inside q \<Longrightarrow> \<not> before_handoff q \<and> q \<noteq> P_set_flag"
  by (cases q) auto

lemma cinv_intro:
  assumes others: "\<forall>a. a \<noteq> i \<longrightarrow> \<not> inside (pcs a)"
    and lock: "mem_freed_lock m' = inside p"
    and bh: "before_handoff p \<longrightarrow> \<not> mem_freed m'"
    and sf: "p = P_set_flag \<longrightarrow> \<not> mem_freed m'"
    and cnt: "length (filter releases tr') = (if mem_freed m' \<or> p = P_set_flag then 1 else 0)"
    and fr: "length (filter is_free tr') \<le> length (filter releases tr')"
    and del: "disposed_del (ops i) p \<longrightarrow> mem_freed m'"
    and dels: "\<forall>a. a \<noteq> i \<longrightarrow> disposed_del (ops a) (pcs a) \<longrightarrow> mem_freed m'"
  shows "cinv ops (pcs(i := p), m', tr')"
proof -
  let ?pcs = "pcs(i := p)"
  have ai: "a = i" if "inside (?pcs a)" for a
  proof (rule ccontr)
    assume n: "a \<noteq> i"
    with that have "inside (pcs a)" by simp
    with others n show False by simp
  qed
  have bi: "a = i" if "before_handoff (?pcs a)" for a
  proof (rule ccontr)
    assume n: "a \<noteq> i"
    with that have "before_handoff (pcs a)" by simp
    moreover from others n have "\<not> inside (pcs a)" by simp
    ultimately show False using not_inside by blast
  qed
  have si: "a = i" if "?pcs a = P_set_flag" for a
  proof (rule ccontr)
    assume n: "a \<noteq> i"
    with that have "pcs a = P_set_flag" by simp
    moreover from others n have "\<not> inside (pcs a)" by simp
    ultimately show False by simp
  qed
  have c1: "mem_freed_lock m' = (\<exists>a. inside (?pcs a))"
  proof
    assume "mem_freed_lock m'"
    with lock have "inside (?pcs i)" by simp
    then show "\<exists>a. inside (?pcs a)" by blast
  next
    assume "\<exists>a. inside (?pcs a)"
    then obtain a where a: "inside (?pcs a)" by blast
    from ai [OF a] a lock show "mem_freed_lock m'" by simp
  qed
  have c2: "\<forall>a b. inside (?pcs a) \<and> inside (?pcs b) \<longrightarrow> a = b"
  proof (intro allI impI)
    fix a b assume ab: "inside (?pcs a) \<and> inside (?pcs b)"
    then have "a = i" and "b = i" using ai by blast+
    then show "a = b" by simp
  qed
  have c3: "\<forall>a. before_handoff (?pcs a) \<longrightarrow> \<not> mem_freed m'"
  proof (intro allI impI)
    fix a assume b: "before_handoff (?pcs a)"
    from bi [OF b] b bh show "\<not> mem_freed m'" by simp
  qed
  have c4: "\<forall>a. ?pcs a = P_set_flag \<longrightarrow> \<not> mem_freed m'"
  proof (intro allI impI)
    fix a assume b: "?pcs a = P_set_flag"
    from si [OF b] b sf show "\<not> mem_freed m'" by simp
  qed
  have e: "(\<exists>a. ?pcs a = P_set_flag) = (p = P_set_flag)"
  proof
    assume "\<exists>a. ?pcs a = P_set_flag"
    then obtain a where a: "?pcs a = P_set_flag" by blast
    from si [OF a] a show "p = P_set_flag" by simp
  next
    assume "p = P_set_flag"
    then have "?pcs i = P_set_flag" by simp
    then show "\<exists>a. ?pcs a = P_set_flag" by blast
  qed
  have c5: "length (filter releases tr') =
      (if mem_freed m' \<or> (\<exists>a. ?pcs a = P_set_flag) then 1 else 0)"
    unfolding e using cnt .
  have c7: "\<forall>a. disposed_del (ops a) (?pcs a) \<longrightarrow> mem_freed m'"
  proof (intro allI impI)
    fix a assume d: "disposed_del (ops a) (?pcs a)"
    show "mem_freed m'"
    proof (cases "a = i")
      case True
      with d del show ?thesis by simp
    next
      case False
      with d dels show ?thesis by simp
    qed
  qed
  show ?thesis
    unfolding cinv_def prod.case
    by (intro conjI c1 c2 c3 c4 c5 fr c7)
qed

lemma cinv_step:
  assumes "cinv ops cfg"
  shows "cinv ops (sched_step ops i cfg)"
proof -
  obtain pcs m tr where cfg: "cfg = (pcs, m, tr)" by (cases cfg)
  show ?thesis
  proof (cases "thread_step (ops i) (pcs i) (m, tr)")
    case None
    with assms cfg show ?thesis by (simp add: sched_step_def)
  next
    case (Some r)
    then obtain p m' tr' where r: "thread_step (ops i) (pcs i) (m, tr) = Some (p, m', tr')"
      by (cases r) auto
    have s: "sched_step ops i cfg = (pcs(i := p), m', tr')"
      using r cfg by (simp add: sched_step_def)
    from assms cfg have
      I1: "mem_freed_lock m = (\<exists>i. inside (pcs i))" and
      I2: "\<forall>a b. inside (pcs a) \<and> inside (pcs b) \<longrightarrow> a = b" and
      I3: "\<forall>a. before_handoff (pcs a) \<longrightarrow> \<not> mem_freed m" and
      I4: "\<forall>a. pcs a = P_set_flag \<longrightarrow> \<not> mem_freed m" and
      I5: "length (filter releases tr) = (if mem_freed m \<or> (\<exists>a. pcs a = P_set_flag) then 1 else 0)" and
      I6: "length (filter is_free tr) \<le> length (filter releases tr)" and
      I7: "\<forall>a. disposed_del (ops a) (pcs a) \<longrightarrow> mem_freed m"
      by (simp_all add: cinv_def)
    have others: "\<forall>a. a \<noteq> i \<longrightarrow> \<not> inside (pcs a)"
    proof (cases "inside (pcs i)")
      case True
      with I2 show ?thesis by blast
    next
      case False
      with r have "pcs i = P_acquire" by (cases "pcs i") (auto elim: thread_step.elims)
      with r have "\<not> mem_freed_lock m" by (auto split: if_splits)
      with I1 show ?thesis by simp
    qed
    have nsf: "(\<exists>a. pcs a = P_set_flag) = (pcs i = P_set_flag)"
    proof
      assume "\<exists>a. pcs a = P_set_flag"
      then obtain a where a: "pcs a = P_set_flag" by blast
      then have "inside (pcs a)" by simp
      with others have "a = i" by auto
      with a show "pcs i = P_set_flag" by simp
    next
      assume "pcs i = P_set_flag"
      then show "\<exists>a. pcs a = P_set_flag" by blast
    qed
    note I5' = I5 [unfolded nsf]
    have lk: "inside (pcs i) \<Longrightarrow> mem_freed_lock m" using I1 by blast
    have mono: "mem_freed m \<longrightarrow> mem_freed m'"
      using r by (cases "ops i"; cases "pcs i") (auto split: if_splits option.splits)
    have dels: "\<forall>a. a \<noteq> i \<longrightarrow> disposed_del (ops a) (pcs a) \<longrightarrow> mem_freed m'"
      using I7 mono by blast
    have "cinv ops (pcs(i := p), m', tr')"
    proof (rule cinv_intro [OF others _ _ _ _ _ _ dels])
      show "mem_freed_lock m' = inside p"
        using r lk
        by (cases "ops i"; cases "pcs i")
           (auto simp: after_check_def split: if_splits option.splits sum.splits)
      show "before_handoff p \<longrightarrow> \<not> mem_freed m'"
        using r I3 [rule_format, of i] lk
        by (cases "ops i"; cases "pcs i")
           (auto simp: after_check_def Message_ensure_can_send_def
                 split: if_splits option.splits sum.splits)
      show "p = P_set_flag \<longrightarrow> \<not> mem_freed m'"
        using r I3 [rule_format, of i]
        by (cases "ops i"; cases "pcs i")
           (auto simp: after_check_def split: if_splits option.splits sum.splits)
      show "length (filter releases tr') = (if mem_freed m' \<or> p = P_set_flag then 1 else 0)"
        using r I3 [rule_format, of i] I4 [rule_format, of i] I5'
        by (cases "ops i"; cases "pcs i")
           (auto simp: after_check_def check_err_def split: if_splits option.splits sum.splits)
      show "length (filter is_free tr') \<le> length (filter releases tr')"
        using r I6
        by (cases "ops i"; cases "pcs i")
           (auto simp: after_check_def check_err_def split: if_splits option.splits sum.splits)
      show "disposed_del (ops i) p \<longrightarrow> mem_freed m'"
        using r I7 [rule_format, of i]
        by (cases "ops i"; cases "pcs i")
           (auto simp: after_check_def split: if_splits option.splits sum.splits)
    qed
    with s show ?thesis by simp
  qed
qed

lemma cinv_run:
  "cinv ops cfg \<Longrightarrow> cinv ops (run_schedule ops sched cfg)"
  by (induction sched arbitrary: cfg) (simp_all add: cinv_step)

lemma cinv_init:
  "\<not> mem_freed_lock m \<Longrightarrow> \<not> mem_freed m \<Longrightarrow> cinv threads (\<lambda>i. P_acquire, m, [])"
  by (simp add: cinv_def)

lemma cinv_counts:
  assumes "cinv threads (pcs, m, tr)"
  shows "length (filter is_free tr) \<le> 1" and "length (filter releases tr) \<le> 1"
    and "threads i = Op_del \<Longrightarrow> pcs i = P_done r \<Longrightarrow>
           mem_freed m \<and> length (filter releases tr) = 1"
proof -
  from assms have
    I5: "length (filter releases tr) = (if mem_freed m \<or> (\<exists>a. pcs a = P_set_flag) then 1 else 0)" and
    I6: "length (filter is_free tr) \<le> length (filter releases tr)" and
    I7: "\<forall>a. disposed_del (threads a) (pcs a) \<longrightarrow> mem_freed m"
    by (simp_all add: cinv_def)
  from I5 show c: "length (filter releases tr) \<le> 1" by (simp split: if_splits)
  with I6 show "length (filter is_free tr) \<le> 1" by simp
  assume "threads i = Op_del" and "pcs i = P_done r"
  then have "disposed_del (threads i) (pcs i)" by simp
  with I7 have "mem_freed m" by blast
  with I5 show "mem_freed m \<and> length (filter releases tr) = 1" by simp
qed

lemma cinv_exclusive:
  assumes "cinv threads (pcs, m, tr)"
  shows "\<forall>i j. inside (pcs i) \<and> inside (pcs j) \<longrightarrow> i = j"
    and "\<forall>i. inside (pcs i) \<longrightarrow> mem_freed_lock m"
    and "\<forall>i. before_handoff (pcs i) \<longrightarrow> \<not> mem_freed m \<and> length (filter releases tr) = 0"
proof -
  from assms have
    I1: "mem_freed_lock m = (\<exists>i. inside (pcs i))" and
    I2: "\<forall>a b. inside (pcs a) \<and> inside (pcs b) \<longrightarrow> a = b" and
    I3: "\<forall>a. before_handoff (pcs a) \<longrightarrow> \<not> mem_freed m" and
    I5: "length (filter releases tr) = (if mem_freed m \<or> (\<exists>a. pcs a = P_set_flag) then 1 else 0)"
    by (simp_all add: cinv_def)
  from I2 show "\<forall>i j. inside (pcs i) \<and> inside (pcs j) \<longrightarrow> i = j" .
  from I1 show "\<forall>i. inside (pcs i) \<longrightarrow> mem_freed_lock m" by blast
  show "\<forall>i. before_handoff (pcs i) \<longrightarrow> \<not> mem_freed m \<and> length (filter releases tr) = 0"
  proof (intro allI impI)
    fix i assume b: "before_handoff (pcs i)"
    then have ii: "inside (pcs i)" by (cases "pcs i") simp_all
    have "\<not> (\<exists>a. pcs a = P_set_flag)"
    proof
      assume "\<exists>a. pcs a = P_set_flag"
      then obtain a where a: "pcs a = P_set_flag" by blast
      then have "inside (pcs a)" by simp
      with ii I2 have "a = i" by blast
      with a b show False by simp
    qed
    moreover from I3 b have "\<not> mem_freed m" by blast
    ultimately show "\<not> mem_freed m \<and> length (filter releases tr) = 0" using I5 by simp
  qed
qed

lemma interleaved_counts:
  assumes "\<not> mem_freed_lock m" and "\<not> mem_freed m"
  shows "case run_schedule threads sched (\<lambda>i. P_acquire, m, []) of
           (pcs, m', tr') \<Rightarrow>
             length (filter is_free tr') \<le> 1 \<and>
             length (filter releases tr') \<le> 1 \<and>
             (\<forall>i r. threads i = Op_del \<and> pcs i = P_done r \<longrightarrow>
                mem_freed m' \<and> length (filter releases tr') = 1)"
proof -
  obtain pcs m' tr' where c: "run_schedule threads sched (\<lambda>i. P_acquire, m, []) = (pcs, m', tr')"
    by (metis prod_cases3)
  from cinv_run [OF cinv_init [OF assms], of threads sched] c
  have i: "cinv threads (pcs, m', tr')" by simp
  from cinv_counts [OF i] show ?thesis unfolding c by auto
qed

lemma interleaved_exclusive:
  assumes "\<not> mem_freed_lock m" and "\<not> mem_freed m"
  shows "case run_schedule threads sched (\<lambda>i. P_acquire, m, []) of
           (pcs, m', tr') \<Rightarrow>
             (\<forall>i j. inside (pcs i) \<and> inside (pcs j) \<longrightarrow> i = j) \<and>
             (\<forall>i. inside (pcs i) \<longrightarrow> mem_freed_lock m') \<and>
             (\<forall>i. before_handoff (pcs i) \<longrightarrow>
                \<not> mem_freed m' \<and> length (filter releases tr') = 0)"
proof -
  obtain pcs m' tr' where c: "run_schedule threads sched (\<lambda>i. P_acquire, m, []) = (pcs, m', tr')"
    by (metis prod_cases3)
  from cinv_run [OF cinv_init [OF assms], of threads sched] c
  have i: "cinv threads (pcs, m', tr')" by simp
  from cinv_exclusive [OF i] show ?thesis unfolding c prod.case by (intro conjI)
qed

text \<open>
  Claim C2. Running \<^verbatim>\<open>Message.__del__\<close> on a message that is already disposed changes
  nothing and makes no engine call: it only takes and releases the lock. On a message
  not yet disposed it frees the buffer once and sets the flag, between taking and
  releasing the lock. Hence for a fresh message and every sequence of sends through a
  socket, sends through a context and disposals, whatever the engine answers: each
  operation returns with the lock free, the engine is asked to free the buffer at most
  once, the buffer has left the object (freed, or owned by an accepted send) exactly
  when the flag is set, and once a disposal is among the operations it has left exactly
  once. The same holds when threads run the operations at the same time, statement by
  statement under any schedule: the buffer is freed at most once, it leaves the object
  at most once, and when a disposal is done it has left exactly once.
\<close>
theorem Message_del_frees_exactly_once:
  assumes "\<not> mem_freed_lock m"
  shows "(mem_freed m \<longrightarrow>
            Message_del (m, tr) =
              Some (Inr (), m, tr @ [Lock_acquire (nng_msg m), Lock_release (nng_msg m)]))
       \<and> (\<not> mem_freed m \<longrightarrow>
            Message_del (m, tr) =
              Some (Inr (), m\<lparr>mem_freed := True\<rparr>,
                    tr @ [Lock_acquire (nng_msg m), Nng_msg_free (nng_msg m),
                          Lock_release (nng_msg m)]))
       \<and> (\<not> mem_freed m \<longrightarrow>
            (\<forall>ops. \<exists>m' tr'. run_ops ops (m, []) = Some (m', tr') \<and>
               \<not> mem_freed_lock m' \<and>
               length (filter is_free tr') \<le> 1 \<and>
               length (filter releases tr') = (if mem_freed m' then 1 else 0) \<and>
               (Op_del \<in> set ops \<longrightarrow> mem_freed m' \<and> length (filter releases tr') = 1)))
       \<and> (\<not> mem_freed m \<longrightarrow>
            (\<forall>threads sched.
               case run_schedule threads sched (\<lambda>i. P_acquire, m, []) of
                 (pcs, m', tr') \<Rightarrow>
                   length (filter is_free tr') \<le> 1 \<and>
                   length (filter releases tr') \<le> 1 \<and>
                   (\<forall>i r. threads i = Op_del \<and> pcs i = P_done r \<longrightarrow>
                      mem_freed m' \<and> length (filter releases tr') = 1)))"
proof (intro conjI impI allI)
  assume "mem_freed m"
  with assms show "Message_del (m, tr) =
      Some (Inr (), m, tr @ [Lock_acquire (nng_msg m), Lock_release (nng_msg m)])"
    by (simp add: Message_del_freed)
next
  assume "\<not> mem_freed m"
  with assms show "Message_del (m, tr) =
      Some (Inr (), m\<lparr>mem_freed := True\<rparr>,
            tr @ [Lock_acquire (nng_msg m), Nng_msg_free (nng_msg m), Lock_release (nng_msg m)])"
    by (simp add: Message_del_live)
next
  fix ops
  assume nf: "\<not> mem_freed m"
  from assms nf have i: "minv (m, [])" and f: "frees_ok (m, [])"
    by (simp_all add: minv_def frees_ok_def)
  from run_ops_minv [OF i f, of ops]
  obtain st' where r: "run_ops ops (m, []) = Some st'" "minv st'" "frees_ok st'"
    "Op_del \<in> set ops \<longrightarrow> mem_freed (fst st')"
    by auto
  obtain m' tr' where st': "st' = (m', tr')" by (cases st')
  from r st' show "\<exists>m' tr'. run_ops ops (m, []) = Some (m', tr') \<and>
               \<not> mem_freed_lock m' \<and>
               length (filter is_free tr') \<le> 1 \<and>
               length (filter releases tr') = (if mem_freed m' then 1 else 0) \<and>
               (Op_del \<in> set ops \<longrightarrow> mem_freed m' \<and> length (filter releases tr') = 1)"
    by (auto simp: minv_def frees_ok_def split: if_splits)
next
  fix threads sched
  assume nf: "\<not> mem_freed m"
  show "case run_schedule threads sched (\<lambda>i. P_acquire, m, []) of
          (pcs, m', tr') \<Rightarrow>
            length (filter is_free tr') \<le> 1 \<and>
            length (filter releases tr') \<le> 1 \<and>
            (\<forall>i r. threads i = Op_del \<and> pcs i = P_done r \<longrightarrow>
               mem_freed m' \<and> length (filter releases tr') = 1)"
    by (rule interleaved_counts [OF assms nf])
qed

lemma Socket_asend_msg_freed:
  "\<not> mem_freed_lock m \<Longrightarrow> mem_freed m \<Longrightarrow>
   Socket_asend_msg helper (m, tr) =
     Some (Inl MessageStateError, m, tr @ [Lock_acquire (nng_msg m), Lock_release (nng_msg m)])"
  by (simp add: Socket_asend_msg_def with_mem_freed_lock_def Message_ensure_can_send_def)

lemma Context_asend_msg_freed:
  "\<not> mem_freed_lock m \<Longrightarrow> mem_freed m \<Longrightarrow>
   Context_asend_msg helper (m, tr) =
     Some (Inl MessageStateError, m, tr @ [Lock_acquire (nng_msg m), Lock_release (nng_msg m)])"
  by (simp add: Context_asend_msg_def with_mem_freed_lock_def Message_ensure_can_send_def)

text \<open>
  Claim C3. A message whose flag is set makes \<^verbatim>\<open>Socket.send_msg\<close>, \<^verbatim>\<open>Context.send_msg\<close> and
  both asynchronous variants raise \<open>MessageStateError\<close>: the lock is taken, nothing is
  asked of the engine, the lock is released, the message is as before. A send that the
  engine accepts sets the flag, so every later send through a socket or a context
  raises that error. The check runs with the lock held (without it the method's own
  assertion fails), and a successful send is the sequence take the lock, call the
  engine, release the lock with nothing in between. When threads run sends and
  disposals at the same time, under any schedule at most one of them is between taking
  and releasing the lock, and a thread that has passed the check and not yet handed the
  buffer over holds the lock and still finds the flag unset and the buffer with the
  object: no statement of another thread comes between the check and the hand-over.
\<close>
theorem send_after_send_raises:
  assumes "\<not> mem_freed_lock m"
  shows "(mem_freed m \<longrightarrow>
            Socket_send_msg sock rc block (m, tr) =
              Some (Inl MessageStateError, m,
                    tr @ [Lock_acquire (nng_msg m), Lock_release (nng_msg m)])
          \<and> Context_send_msg ctx eng (m, tr) =
              Some (Inl MessageStateError, m,
                    tr @ [Lock_acquire (nng_msg m), Lock_release (nng_msg m)])
          \<and> Socket_asend_msg helper (m, tr) =
              Some (Inl MessageStateError, m,
                    tr @ [Lock_acquire (nng_msg m), Lock_release (nng_msg m)])
          \<and> Context_asend_msg helper (m, tr) =
              Some (Inl MessageStateError, m,
                    tr @ [Lock_acquire (nng_msg m), Lock_release (nng_msg m)]))
       \<and> (\<not> mem_freed m \<longrightarrow>
            (\<exists>m' tr'. Socket_send_msg sock 0 block (m, tr) = Some (Inr (), m', tr') \<and>
               mem_freed m' \<and> \<not> mem_freed_lock m' \<and>
               tr' = tr @ [Lock_acquire (nng_msg m),
                           Nng_sendmsg sock (nng_msg m) (if block then 0 else NNG_FLAG_NONBLOCK) 0,
                           Lock_release (nng_msg m)] \<and>
               (\<forall>sock2 rc2 block2. \<exists>tr2.
                  Socket_send_msg sock2 rc2 block2 (m', tr') = Some (Inl MessageStateError, m', tr2)) \<and>
               (\<forall>ctx2 eng2. \<exists>tr2.
                  Context_send_msg ctx2 eng2 (m', tr') = Some (Inl MessageStateError, m', tr2))))
       \<and> Message_ensure_can_send m = Inl AssertionError
       \<and> Message_ensure_can_send (m\<lparr>mem_freed_lock := True\<rparr>) =
            (if mem_freed m then Inl MessageStateError else Inr ())
       \<and> (\<not> mem_freed m \<longrightarrow>
            (\<forall>threads sched.
               case run_schedule threads sched (\<lambda>i. P_acquire, m, []) of
                 (pcs, m', tr') \<Rightarrow>
                   (\<forall>i j. inside (pcs i) \<and> inside (pcs j) \<longrightarrow> i = j) \<and>
                   (\<forall>i. inside (pcs i) \<longrightarrow> mem_freed_lock m') \<and>
                   (\<forall>i. before_handoff (pcs i) \<longrightarrow>
                      \<not> mem_freed m' \<and> length (filter releases tr') = 0)))"
proof (intro conjI impI allI)
  assume f: "mem_freed m"
  from assms f show "Socket_send_msg sock rc block (m, tr) =
      Some (Inl MessageStateError, m, tr @ [Lock_acquire (nng_msg m), Lock_release (nng_msg m)])"
    by (simp add: Socket_send_msg_freed)
  from assms f show "Context_send_msg ctx eng (m, tr) =
      Some (Inl MessageStateError, m, tr @ [Lock_acquire (nng_msg m), Lock_release (nng_msg m)])"
    by (simp add: Context_send_msg_freed)
  from assms f show "Socket_asend_msg helper (m, tr) =
      Some (Inl MessageStateError, m, tr @ [Lock_acquire (nng_msg m), Lock_release (nng_msg m)])"
    by (simp add: Socket_asend_msg_freed)
  from assms f show "Context_asend_msg helper (m, tr) =
      Some (Inl MessageStateError, m, tr @ [Lock_acquire (nng_msg m), Lock_release (nng_msg m)])"
    by (simp add: Context_asend_msg_freed)
next
  assume nf: "\<not> mem_freed m"
  let ?m = "m\<lparr>mem_freed := True\<rparr>"
  let ?tr = "tr @ [Lock_acquire (nng_msg m),
                   Nng_sendmsg sock (nng_msg m) (if block then 0 else NNG_FLAG_NONBLOCK) 0,
                   Lock_release (nng_msg m)]"
  from assms nf have s: "Socket_send_msg sock 0 block (m, tr) = Some (Inr (), ?m, ?tr)"
    by (simp add: Socket_send_msg_live)
  from assms have u: "\<not> mem_freed_lock ?m" and f: "mem_freed ?m" by simp_all
  have a: "\<forall>sock2 rc2 block2. \<exists>tr2.
      Socket_send_msg sock2 rc2 block2 (?m, ?tr) = Some (Inl MessageStateError, ?m, tr2)"
    using Socket_send_msg_freed [OF u f] by blast
  have b: "\<forall>ctx2 eng2. \<exists>tr2.
      Context_send_msg ctx2 eng2 (?m, ?tr) = Some (Inl MessageStateError, ?m, tr2)"
    using Context_send_msg_freed [OF u f] by blast
  from s u f a b show "\<exists>m' tr'. Socket_send_msg sock 0 block (m, tr) = Some (Inr (), m', tr') \<and>
               mem_freed m' \<and> \<not> mem_freed_lock m' \<and>
               tr' = tr @ [Lock_acquire (nng_msg m),
                           Nng_sendmsg sock (nng_msg m) (if block then 0 else NNG_FLAG_NONBLOCK) 0,
                           Lock_release (nng_msg m)] \<and>
               (\<forall>sock2 rc2 block2. \<exists>tr2.
                  Socket_send_msg sock2 rc2 block2 (m', tr') = Some (Inl MessageStateError, m', tr2)) \<and>
               (\<forall>ctx2 eng2. \<exists>tr2.
                  Context_send_msg ctx2 eng2 (m', tr') = Some (Inl MessageStateError, m', tr2))"
    by blast
next
  from assms show "Message_ensure_can_send m = Inl AssertionError"
    by (simp add: Message_ensure_can_send_def)
  show "Message_ensure_can_send (m\<lparr>mem_freed_lock := True\<rparr>) =
            (if mem_freed m then Inl MessageStateError else Inr ())"
    by (simp add: Message_ensure_can_send_def)
next
  fix threads sched
  assume nf: "\<not> mem_freed m"
  show "case run_schedule threads sched (\<lambda>i. P_acquire, m, []) of
          (pcs, m', tr') \<Rightarrow>
            (\<forall>i j. inside (pcs i) \<and> inside (pcs j) \<longrightarrow> i = j) \<and>
            (\<forall>i. inside (pcs i) \<longrightarrow> mem_freed_lock m') \<and>
            (\<forall>i. before_handoff (pcs i) \<longrightarrow>
               \<not> mem_freed m' \<and> length (filter releases tr') = 0)"
    by (rule interleaved_exclusive [OF assms nf])
qed

text \<open>C3 at a message that was sent.\<close>
theorem send_after_send_raises_witness:
  "\<not> mem_freed_lock (msg0\<lparr>mem_freed := True\<rparr>) \<and> mem_freed (msg0\<lparr>mem_freed := True\<rparr>) \<and>
   Socket_send_msg 3 0 True (msg0\<lparr>mem_freed := True\<rparr>, []) =
     Some (Inl MessageStateError, msg0\<lparr>mem_freed := True\<rparr>, [Lock_acquire 1, Lock_release 1])"
  using send_after_send_raises [of "msg0\<lparr>mem_freed := True\<rparr>" 3 0 True "[]"]
  by (simp add: msg0_def)

text \<open>
  C2 at a fresh message: a disposal frees the buffer; a send that the engine accepts
  followed by two disposals hands the buffer over once and never frees it; and when a
  sending thread takes the lock first, the disposing thread waits, then finds the flag
  set and frees nothing.
\<close>
theorem Message_del_frees_exactly_once_witness:
  "\<not> mem_freed_lock msg0 \<and> \<not> mem_freed msg0 \<and>
   Message_del (msg0, []) =
     Some (Inr (), msg0\<lparr>mem_freed := True\<rparr>, [Lock_acquire 1, Nng_msg_free 1, Lock_release 1]) \<and>
   (\<exists>m' tr'. run_ops [Op_socket_send 3 0 True, Op_del, Op_del] (msg0, []) = Some (m', tr') \<and>
      length (filter releases tr') = 1 \<and> length (filter is_free tr') \<le> 1) \<and>
   snd (snd (run_schedule threads0 [1, 0, 1, 1, 0, 1, 1, 0, 0, 0] (\<lambda>i. P_acquire, msg0, []))) =
     [Lock_acquire 1, Nng_sendmsg 3 1 0 0, Lock_release 1, Lock_acquire 1, Lock_release 1] \<and>
   (case run_schedule threads0 [1, 0, 1, 1, 0, 1, 1, 0, 0, 0] (\<lambda>i. P_acquire, msg0, []) of
      (pcs, m', tr') \<Rightarrow>
        length (filter is_free tr') \<le> 1 \<and>
        length (filter releases tr') \<le> 1 \<and>
        (\<forall>i r. threads0 i = Op_del \<and> pcs i = P_done r \<longrightarrow>
           mem_freed m' \<and> length (filter releases tr') = 1))"
proof -
  have u: "\<not> mem_freed_lock msg0" and nf: "\<not> mem_freed msg0"
    by (simp_all add: msg0_def)
  note t = Message_del_frees_exactly_once [OF u, of "[]"]
  from t nf have d: "Message_del (msg0, []) =
      Some (Inr (), msg0\<lparr>mem_freed := True\<rparr>,
            [] @ [Lock_acquire (nng_msg msg0), Nng_msg_free (nng_msg msg0),
                  Lock_release (nng_msg msg0)])"
    by blast
  from t nf have "\<exists>m' tr'. run_ops [Op_socket_send 3 0 True, Op_del, Op_del] (msg0, []) =
        Some (m', tr') \<and> \<not> mem_freed_lock m' \<and> length (filter is_free tr') \<le> 1 \<and>
        length (filter releases tr') = (if mem_freed m' then 1 else 0) \<and>
        (Op_del \<in> set [Op_socket_send 3 0 True, Op_del, Op_del] \<longrightarrow>
           mem_freed m' \<and> length (filter releases tr') = 1)"
    by blast
  then have r: "\<exists>m' tr'. run_ops [Op_socket_send 3 0 True, Op_del, Op_del] (msg0, []) =
        Some (m', tr') \<and> length (filter releases tr') = 1 \<and> length (filter is_free tr') \<le> 1"
    by auto
  have i: "case run_schedule threads0 [1, 0, 1, 1, 0, 1, 1, 0, 0, 0]
        (\<lambda>i. P_acquire, msg0, []) of
      (pcs, m', tr') \<Rightarrow>
        length (filter is_free tr') \<le> 1 \<and>
        length (filter releases tr') \<le> 1 \<and>
        (\<forall>i r. threads0 i = Op_del \<and> pcs i = P_done r \<longrightarrow>
           mem_freed m' \<and> length (filter releases tr') = 1)"
    by (rule t [THEN conjunct2, THEN conjunct2, THEN conjunct2, rule_format, OF nf])
  have e: "snd (snd (run_schedule threads0 [1, 0, 1, 1, 0, 1, 1, 0, 0, 0]
        (\<lambda>i. P_acquire, msg0, []))) =
     [Lock_acquire 1, Nng_sendmsg 3 1 0 0, Lock_release 1, Lock_acquire 1, Lock_release 1]"
    by (simp add: sched_step_def threads0_def msg0_def after_check_def
        Message_ensure_can_send_def check_err_def)
  have d': "Message_del (msg0, []) =
     Some (Inr (), msg0\<lparr>mem_freed := True\<rparr>, [Lock_acquire 1, Nng_msg_free 1, Lock_release 1])"
    using d by (simp add: msg0_def)
  show ?thesis
    by (intro conjI u nf d' r e i)
qed

text \<open>
  Claim C10. When \<^verbatim>\<open>nng_sendmsg\<close> returns a code that is not zero, \<^verbatim>\<open>Socket.send_msg\<close>
  raises the error of that code and the message is as before, its flag still unset, so
  a later send that the engine accepts goes through and a later disposal frees the
  buffer; when \<^verbatim>\<open>nng_sendmsg\<close> returns zero the flag is set. \<^verbatim>\<open>Context.send_msg\<close> sets the flag once the
  send has been issued, whatever waiting for the operation and reading its result give
  afterwards, an error included.
\<close>
theorem send_failure_keeps_message:
  assumes "\<not> mem_freed_lock m" and "\<not> mem_freed m"
  shows "(rc \<noteq> 0 \<longrightarrow>
            Socket_send_msg sock rc block (m, tr) =
              Some (check_err rc, m,
                    tr @ [Lock_acquire (nng_msg m),
                          Nng_sendmsg sock (nng_msg m) (if block then 0 else NNG_FLAG_NONBLOCK) rc,
                          Lock_release (nng_msg m)])
          \<and> check_err rc \<noteq> Inr ()
          \<and> (\<forall>tr1. \<exists>tr2.
                 Socket_send_msg sock 0 block (m, tr1) = Some (Inr (), m\<lparr>mem_freed := True\<rparr>, tr2))
          \<and> (\<forall>tr1. \<exists>tr2.
                 Message_del (m, tr1) = Some (Inr (), m\<lparr>mem_freed := True\<rparr>, tr2) \<and>
                 Nng_msg_free (nng_msg m) \<in> set tr2))
       \<and> Socket_send_msg sock 0 block (m, tr) =
              Some (Inr (), m\<lparr>mem_freed := True\<rparr>,
                    tr @ [Lock_acquire (nng_msg m),
                          Nng_sendmsg sock (nng_msg m) (if block then 0 else NNG_FLAG_NONBLOCK) 0,
                          Lock_release (nng_msg m)])
       \<and> (aio_alloc_rc eng = 0 \<and> aio_set_msg_rc eng = 0 \<and> ctx_send_rc eng = 0 \<longrightarrow>
            (\<exists>tr'. Context_send_msg (Some ctx) eng (m, tr) =
               Some (case check_err (aio_wait_rc eng) of
                       Inl e \<Rightarrow> Inl e
                     | Inr _ \<Rightarrow> check_err (aio_result_rc eng),
                     m\<lparr>mem_freed := True\<rparr>, tr')))"
  using assms
  by (auto simp: Socket_send_msg_live Message_del_live check_err_def Context_send_msg_def
      with_mem_freed_lock_def Message_ensure_can_send_def Context_send_msg_try_def Let_def)

text \<open>
  C10 at a fresh message: the engine code 8 from \<^verbatim>\<open>nng_sendmsg\<close> leaves the message as
  it was; a context send whose result is the code 5 raises and has set the flag.
\<close>
theorem send_failure_keeps_message_witness:
  "\<not> mem_freed_lock msg0 \<and> \<not> mem_freed msg0 \<and> (8::int) \<noteq> 0 \<and>
   Socket_send_msg 3 8 True (msg0, []) =
     Some (Inl (NNGException 8), msg0, [Lock_acquire 1, Nng_sendmsg 3 1 0 8, Lock_release 1]) \<and>
   (\<exists>tr'. Context_send_msg (Some 4)
       \<lparr>aio_alloc_rc = 0, aio_handle = 9, aio_set_msg_rc = 0, ctx_send_rc = 0, aio_wait_rc = 0,
        aio_result_rc = 5\<rparr> (msg0, []) =
     Some (Inl (NNGException 5), msg0\<lparr>mem_freed := True\<rparr>, tr'))"
  using send_failure_keeps_message [of msg0 8 3 True "[]"
      "\<lparr>aio_alloc_rc = 0, aio_handle = 9, aio_set_msg_rc = 0, ctx_send_rc = 0, aio_wait_rc = 0,
        aio_result_rc = 5\<rparr>" 4]
  by (simp add: msg0_def check_err_def NNG_ECONNREFUSED_def)

text \<open>
  Claim C9, amended. Assigning a value that is not a \<^verbatim>\<open>Pipe\<close> to the \<^verbatim>\<open>pipe\<close> attribute of
  a message raises \<open>ValueError\<close>, asks nothing of the engine and leaves the message as
  it was. Assigning a \<^verbatim>\<open>Pipe\<close> tells the engine and, when the engine reports no error,
  stores the pipe in the message; when it reports one, the error is raised and the
  association stays as it was.
\<close>
theorem pipe_setter_rejects_non_pipe:
  "(\<not> is_Pipe v \<longrightarrow> Message_set_pipe rc v (m, tr) = (Inl ValueError, m, tr))
   \<and> Message_set_pipe 0 (PyPipe p) (m, tr) =
       (Inr (), m\<lparr>pipe_attr := Some p\<rparr>, tr @ [Nng_msg_set_pipe (nng_msg m) (pipe_handle p)])
   \<and> (rc \<noteq> 0 \<longrightarrow>
        Message_set_pipe rc (PyPipe p) (m, tr) =
          (check_err rc, m, tr @ [Nng_msg_set_pipe (nng_msg m) (pipe_handle p)]))"
  by (cases v) (simp_all add: Message_set_pipe_def check_err_def)

text \<open>C9 as amended, at a string and at a pipe.\<close>
theorem pipe_setter_rejects_non_pipe_witness:
  "\<not> is_Pipe (PyStr ''pipe'') \<and>
   Message_set_pipe 0 (PyStr ''pipe'') (msg0, []) = (Inl ValueError, msg0, []) \<and>
   Message_set_pipe 0 (PyPipe (Pipe_init 7 2)) (msg0, []) =
     (Inr (), msg0\<lparr>pipe_attr := Some (Pipe_init 7 2)\<rparr>, [Nng_msg_set_pipe 1 7])"
  using pipe_setter_rejects_non_pipe [of "PyStr ''pipe''" 0 msg0 "[]" "Pipe_init 7 2"]
  by (simp add: msg0_def Pipe_init_def)

text \<open>
  C9 as stated fails: assigning \<^verbatim>\<open>None\<close> raises \<open>ValueError\<close>, which is not \<open>TypeError\<close>
  (in Python neither class derives from the other).
\<close>
theorem pipe_setter_not_TypeError:
  "fst (Message_set_pipe 0 PyNone (msg0, [])) = Inl ValueError \<and>
   fst (Message_set_pipe 0 PyNone (msg0, [])) \<noteq> Inl TypeError"
  by (simp add: Message_set_pipe_def)

section \<open>The pipe-event dispatcher\<close>



lemma run_hooks_handle:
  "run_hooks ev msg hooks (p, lg, cs) = (r, p', lg', cs') \<Longrightarrow> pipe_handle p' = pipe_handle p"
proof (induction hooks arbitrary: p lg cs)
  case Nil
  then show ?case by simp
next
  case (Cons cb cbs)
  then show ?case
    by (cases "snd (cb p)") (auto simp: Let_def split: if_splits dest: Cons.IH)
qed


lemma relock: "\<not> pipe_notify_lock s \<Longrightarrow> s\<lparr>pipe_notify_lock := False\<rparr> = s"
  by simp








text \<open>
  Claim C8, amended. When the token of a pipe event has no entry in \<^verbatim>\<open>_live_sockets\<close>
  the dispatcher changes nothing and ends by raising \<open>KeyError\<close>, the error of the
  lookup, which nothing in the dispatcher handles.
\<close>
theorem dispatcher_unknown_socket_raises:
  "live_sockets w arg = None \<Longrightarrow> nng_pipe_cb lib_pipe event arg w = Some (Inl KeyError, w)"
  by (simp add: nng_pipe_cb_def)

text \<open>C8 as amended, at the empty registry.\<close>
theorem dispatcher_unknown_socket_raises_witness:
  "live_sockets world0 5 = None \<and>
   nng_pipe_cb 7 NNG_PIPE_EV_REM_POST 5 world0 = Some (Inl KeyError, world0)"
  using dispatcher_unknown_socket_raises [of world0 5 7 NNG_PIPE_EV_REM_POST]
  by (simp add: world0_def)

text \<open>
  C8 as stated fails: on the empty registry the dispatcher does not complete
  normally, it raises \<open>KeyError\<close>.
\<close>
theorem dispatcher_unknown_socket_not_silent:
  "nng_pipe_cb 7 NNG_PIPE_EV_ADD_PRE 5 world0 = Some (Inl KeyError, world0) \<and>
   nng_pipe_cb 7 NNG_PIPE_EV_ADD_PRE 5 world0 \<noteq> Some (Inr (), world0)"
  by (simp add: nng_pipe_cb_def world0_def)





section \<open>Socket operations\<close>




text \<open>
  Claim C6, amended. After \<^verbatim>\<open>Socket.close\<close> on a socket that has its engine handle the
  dialer table and the listener table are empty; the pipe table is as it was before
  the call. A second call leaves the socket as the first left it, and no call raises,
  whatever the engine returns.
\<close>
theorem Socket_close_clears_endpoints:
  "(socket_attr s \<noteq> None \<longrightarrow>
      dialers (fst (Socket_close rc s)) = Map.empty \<and>
      listeners (fst (Socket_close rc s)) = Map.empty)
   \<and> pipes (fst (Socket_close rc s)) = pipes s
   \<and> fst (Socket_close rc' (fst (Socket_close rc s))) = fst (Socket_close rc s)"
  by (cases "socket_attr s") (simp_all add: Socket_close_def)

text \<open>C6 as amended, at a socket with a dialer, a listener and a pipe.\<close>
theorem Socket_close_clears_endpoints_witness:
  "socket_attr sock2 \<noteq> None \<and>
   dialers sock2 \<noteq> Map.empty \<and> listeners sock2 \<noteq> Map.empty \<and>
   dialers (fst (Socket_close 0 sock2)) = Map.empty \<and>
   listeners (fst (Socket_close 0 sock2)) = Map.empty \<and>
   pipes (fst (Socket_close 0 sock2)) = pipes sock2 \<and>
   fst (Socket_close 7 (fst (Socket_close 0 sock2))) = fst (Socket_close 0 sock2)"
  using Socket_close_clears_endpoints [of sock2 0 7]
  by (simp add: sock2_def sock1_def)

text \<open>
  C6 as stated fails: a socket with the pipe 7 in its table still has it after
  \<^verbatim>\<open>close\<close>, so the pipe table is not empty.
\<close>
theorem Socket_close_keeps_pipes:
  "pipes (fst (Socket_close 0 sock2)) 7 = Some (Pipe_init 7 5) \<and>
   pipes (fst (Socket_close 0 sock2)) \<noteq> Map.empty"
proof -
  have "pipes (fst (Socket_close 0 sock2)) 7 = Some (Pipe_init 7 5)"
    by (simp add: Socket_close_def sock2_def sock1_def)
  then show ?thesis by auto
qed

text \<open>
  Claim C1 at an address where nobody listens. With \<open>block\<close> left at \<open>None\<close> the only
  call to the engine is a nonblocking dial, which succeeds, and nothing is logged; the
  blocking dial that the claim and the method's documentation put first, and that
  would have been refused here, is never made.
\<close>
theorem dial_auto_never_blocks:
  "Socket_dial refusing_engine ''tcp://127.0.0.1:5555'' None (sock1, [], []) =
     (Inr (), sock1\<lparr>dialers := [1 \<mapsto> \<lparr>dialer_handle = 1\<rparr>]\<rparr>, [],
      [Nng_dial 3 ''tcp://127.0.0.1:5555'' NNG_FLAG_NONBLOCK 0])
   \<and> Socket_dial refusing_engine ''tcp://127.0.0.1:5555'' (Some True) (sock1, [], []) =
     (Inl ConnectionRefused, sock1, [], [Nng_dial 3 ''tcp://127.0.0.1:5555'' 0 NNG_ECONNREFUSED])"
  by (simp add: Socket__dial_def refusing_engine_def sock1_def check_err_def
      NNG_FLAG_NONBLOCK_def NNG_ECONNREFUSED_def)

text \<open>
  Claim C7 at a construction with a blocking dial during which the engine connects and
  delivers the pre-add and post-add events of the pipe 7. The socket is entered in
  \<^verbatim>\<open>_live_sockets\<close> only after the dial, so both calls of the dispatcher raise \<open>KeyError\<close>
  and the constructed socket has an empty pipe table although the pipe is connected.
\<close>
theorem init_registers_after_dial:
  "Socket_init args1 engine1 5 (world0, []) =
     Some (Inr (),
           new_socket\<lparr>socket_attr := Some 3, dialers := [1 \<mapsto> \<lparr>dialer_handle = 1\<rparr>]\<rparr>,
           world0\<lparr>live_sockets :=
             [5 \<mapsto> new_socket\<lparr>socket_attr := Some 3, dialers := [1 \<mapsto> \<lparr>dialer_handle = 1\<rparr>]\<rparr>]\<rparr>,
           [Nng_open 0,
            Nng_pipe_notify 3 NNG_PIPE_EV_ADD_PRE 0,
            Nng_pipe_notify 3 NNG_PIPE_EV_ADD_POST 0,
            Nng_pipe_notify 3 NNG_PIPE_EV_REM_POST 0,
            Nng_dial 3 ''tcp://127.0.0.1:5555'' 0 0],
           [Inl KeyError, Inl KeyError])
   \<and> pipes (new_socket\<lparr>socket_attr := Some 3, dialers := [1 \<mapsto> \<lparr>dialer_handle = 1\<rparr>]\<rparr>) = Map.empty"
  by (simp add: Socket_init_def args1_def engine1_def world0_def new_socket_def check_err_def
      init_endpoint_def Socket__dial_def nng_pipe_cb_def Let_def)

end
